theory Spec2Isabelle
  imports Main "HOL-Library.AList" "HOL-Library.Sublist"
begin

section \<open>Data model of \<open>s3_deploy/main.py\<close>\<close>

text \<open>
  Python strings and byte strings are both modelled as \<open>string\<close> (a list of 8-bit
  characters).  A Python \<open>dict\<close> keeps its keys in insertion order and the version
  retention loop depends on that order, so the remote inventory \<open>aS3FileInfo\<close> is an
  association list; assignment \<open>d[k] = v\<close> is \<open>AList.update\<close> (an existing key keeps its
  position, a new key goes to the end).
\<close>

type_synonym bytes = string

datatype error = IOError string | ClientError string | KeyError string

text \<open>One element of \<open>oResponse['Contents']\<close>; \<open>LastModified\<close> is the time stamp as the
  epoch seconds the sort key \<open>int(obj['LastModified'].strftime('%s'))\<close> reads from it.\<close>

record s3object =
  Key :: string
  ETag :: string
  Size :: nat
  LastModified :: int

record response =
  Contents :: "s3object list option"

text \<open>One value of the dictionary \<open>aFiles\<close> built by \<open>getS3Files\<close>.\<close>

record s3file =
  key :: string
  etag :: string
  fsize :: nat
  modified :: int

type_synonym inventory = "(string \<times> s3file) list"

text \<open>The parsed command line, \<open>self.oCmdOptions\<close>.\<close>

record cmd_options =
  sProduct :: string
  sDeployment :: string
  sBuildDir :: string
  bDryRun :: bool
  bForceTransfer :: bool
  bInvalidCFOnly :: bool
  iVersions :: "int option"

text \<open>The keyword arguments of one \<open>put_object\<close> call.\<close>

record put_request =
  Body :: bytes
  Bucket :: string
  CacheControl :: string
  ContentType :: "string option"
  put_Key :: string

text \<open>
  Everything the program reads from outside: the configuration values that
  \<open>validateTarget\<close> stores, the build directory (the result of \<open>os.walk('.')\<close> and the
  content of each readable file), the digest \<open>hashlib.md5\<close> assigns to a byte string, the
  \<open>mimetypes\<close> table, the clock, and the answers of the two AWS clients.  A call that
  raises answers with an \<open>error\<close>.
\<close>

record env =
  S3_BUCKET :: string
  CF_DIST_ID :: string
  walk :: "(string \<times> string list \<times> string list) list"
  read_file :: "string \<Rightarrow> bytes option"
  md5_hex :: "bytes \<Rightarrow> string"
  guess_type :: "string \<Rightarrow> string option"
  now :: string
  list_objects_v2 :: "string \<Rightarrow> string \<Rightarrow> error + response"
  get_object :: "string \<Rightarrow> string \<Rightarrow> error + bytes"
  put_object :: "put_request \<Rightarrow> error option"
  delete_object :: "string \<Rightarrow> string \<Rightarrow> error option"
  create_invalidation :: "string \<Rightarrow> string list \<Rightarrow> string \<Rightarrow> error option"

text \<open>What a run does to the outside, in the order it happens.\<close>

datatype event =
    Print string
  | PutObject put_request
  | DeleteObject string string
  | CreateInvalidation string "string list" string

section \<open>Constants and string helpers\<close>

definition CACHE_SECONDS :: nat where
  "CACHE_SECONDS = 90 * 24 * 60 * 60"

definition NO_CACHE_FILES :: "string list" where
  "NO_CACHE_FILES = [''index.html'', ''asset-manifest.json'']"

definition dquote :: char where "dquote = CHR 0x22"
definition squote :: char where "squote = CHR 0x27"
definition backslash :: char where "backslash = CHR 0x5C"
definition newline :: char where "newline = CHR 0x0A"

text \<open>\<open>'%d' % n\<close> for a natural number.\<close>

function format_d :: "nat \<Rightarrow> string" where
  "format_d n =
     (if n < 10 then [''0123456789'' ! n]
      else format_d (n div 10) @ [''0123456789'' ! (n mod 10)])"
  by pat_completeness auto
termination
  by (relation "measure id") auto

declare format_d.simps [simp del]

text \<open>\<open>s.replace(old, new)\<close>: every non-overlapping occurrence, from the left.\<close>

function str_replace :: "string \<Rightarrow> string \<Rightarrow> string \<Rightarrow> string" where
  "str_replace old new s =
     (if old = [] then new @ concat (map (\<lambda>c. c # new) s)
      else if s = [] then []
      else if prefix old s then new @ str_replace old new (drop (length old) s)
      else hd s # str_replace old new (tl s))"
  by pat_completeness auto
termination
  by (relation "measure (\<lambda>(old, new, s). length s)") auto

declare str_replace.simps [simp del]

text \<open>\<open>re.match('precache-manifest', sKey)\<close>: the pattern is a literal and \<open>re.match\<close>
  anchors it at the first character of the whole key.\<close>

definition re_match_manifest :: "string \<Rightarrow> bool" where
  "re_match_manifest sKey = prefix ''precache-manifest'' sKey"

text \<open>\<open>re.sub(r'^"(.*)"$', '\\1', s)\<close>: \<open>.\<close> does not match a newline and \<open>$\<close> also
  matches just before a newline that ends the string.\<close>

definition strip_etag_quotes :: "string \<Rightarrow> string" where
  "strip_etag_quotes s =
     (let t = (if s \<noteq> [] \<and> last s = newline then butlast s else s)
      in if 2 \<le> length t \<and> hd t = dquote \<and> last t = dquote
            \<and> newline \<notin> set (butlast (tl t))
         then butlast (tl t) @ drop (length t) s
         else s)"

text \<open>\<open>re.sub(r'^\./', '', s)\<close>.\<close>

definition strip_dot_slash :: "string \<Rightarrow> string" where
  "strip_dot_slash s = (if prefix ''./'' s then drop 2 s else s)"

text \<open>\<open>str(b)\<close> of a \<open>bytes\<close> object in Python 3 is its \<open>repr\<close>.\<close>

definition hex_digit :: "nat \<Rightarrow> char" where
  "hex_digit n = ''0123456789abcdef'' ! (n mod 16)"

definition repr_byte :: "char \<Rightarrow> char \<Rightarrow> string" where
  "repr_byte q c =
     (if c = q \<or> c = backslash then [backslash, c]
      else if c = CHR 0x09 then [backslash, CHR ''t'']
      else if c = newline then [backslash, CHR ''n'']
      else if c = CHR 0x0D then [backslash, CHR ''r'']
      else if (of_char c :: nat) < 32 \<or> 127 \<le> (of_char c :: nat)
        then [backslash, CHR ''x'', hex_digit (of_char c div 16), hex_digit (of_char c)]
      else [c])"

definition str_of_bytes :: "bytes \<Rightarrow> string" where
  "str_of_bytes b =
     (let q = (if squote \<in> set b \<and> dquote \<notin> set b then dquote else squote)
      in CHR ''b'' # q # concat (map (repr_byte q) b) @ [q])"

text \<open>\<open>re.findall(r'"url": "/(.*?)"', s)\<close>: the captured group of every non-overlapping
  match, from the left.\<close>

definition url_marker :: string where
  "url_marker = dquote # ''url'' @ [dquote] @ '': '' @ [dquote, CHR ''/'']"

function findall_url :: "string \<Rightarrow> string list" where
  "findall_url s =
     (if s = [] then []
      else if prefix url_marker s then
        (let rest = drop (length url_marker) s;
             sUrl = takeWhile (\<lambda>c. c \<noteq> dquote) rest
         in if length sUrl < length rest \<and> newline \<notin> set sUrl
            then sUrl # findall_url (drop (Suc (length sUrl)) rest)
            else findall_url (tl s))
      else findall_url (tl s))"
  by pat_completeness auto
termination
  by (relation "measure length") auto

declare findall_url.simps [simp del]

text \<open>\<open>list(set(a) - set(b))\<close> and \<open>list(set(a) & set(b))\<close>.  Python leaves the order in
  which a set is enumerated open; the model lists the elements in the order of their first
  occurrence, and every statement below is about the set of elements only.\<close>

definition set_minus :: "string list \<Rightarrow> string list \<Rightarrow> string list" where
  "set_minus a b = filter (\<lambda>x. x \<notin> set b) (remdups a)"

definition set_inter :: "string list \<Rightarrow> string list \<Rightarrow> string list" where
  "set_inter a b = filter (\<lambda>x. x \<in> set b) (remdups a)"

section \<open>Module-level functions\<close>

text \<open>\<open>md5Checksum\<close>: the hash object is the bytes it has been fed so far; the loop feeds
  it the file in chunks of 8192 bytes until a read returns nothing.\<close>

function md5_read_loop :: "bytes \<Rightarrow> bytes \<Rightarrow> bytes" where
  "md5_read_loop m fh =
     (let data = take 8192 fh
      in if data = [] then m else md5_read_loop (m @ data) (drop 8192 fh))"
  by pat_completeness auto
termination
  by (relation "measure (\<lambda>(m, fh). length fh)") auto

declare md5_read_loop.simps [simp del]

definition md5Checksum :: "env \<Rightarrow> string \<Rightarrow> error + string" where
  "md5Checksum e filePath =
     (case read_file e filePath of
        None \<Rightarrow> Inl (IOError filePath)
      | Some fh \<Rightarrow> Inr (md5_hex e (md5_read_loop [] fh)))"

text \<open>\<open>searchList\<close>: the index of the first occurrence, or \<open>False\<close> (here \<open>None\<close>).  Every
  caller tests the result with \<open>is False\<close>, which index \<open>0\<close> does not satisfy.\<close>

fun searchList :: "'a \<Rightarrow> 'a list \<Rightarrow> nat option" where
  "searchList sNeedle [] = None"
| "searchList sNeedle (x # aHaystack) =
     (if x = sNeedle then Some 0 else map_option Suc (searchList sNeedle aHaystack))"

definition getCwdFiles :: "env \<Rightarrow> string list" where
  "getCwdFiles e =
     concat (map (\<lambda>(sRoot, aDirs, aFiles).
       map (\<lambda>sFile. strip_dot_slash (sRoot @ ''/'' @ sFile)) aFiles) (walk e))"

section \<open>Methods of \<open>Deploy\<close>\<close>

definition getS3Files :: "env \<Rightarrow> string \<Rightarrow> string \<Rightarrow> error + inventory" where
  "getS3Files e sBucket sPrefix =
     (case list_objects_v2 e sBucket sPrefix of
        Inl err \<Rightarrow> Inl err
      | Inr oResponse \<Rightarrow>
          (case Contents oResponse of
             None \<Rightarrow> Inr []
           | Some aContents \<Rightarrow>
               Inr (foldl (\<lambda>aFiles oContent.
                      let sKey = str_replace (sPrefix @ ''/'') [] (Key oContent)
                      in AList.update sKey
                           \<lparr>key = sKey, etag = strip_etag_quotes (ETag oContent),
                            fsize = Size oContent, modified = LastModified oContent\<rparr>
                           aFiles)
                    [] (sort_key (\<lambda>obj. - LastModified obj) aContents))))"

text \<open>The loop over \<open>aCommonFiles\<close> in \<open>compareFiles\<close>.  \<open>or\<close> does not evaluate its
  right operand when \<open>bForceTransfer\<close> is set, so neither the dictionary nor the file is
  read then.\<close>

fun compare_common ::
  "cmd_options \<Rightarrow> env \<Rightarrow> inventory \<Rightarrow> string list \<Rightarrow> string list \<Rightarrow> error + string list" where
  "compare_common opts e aS3FileInfo [] aNewFiles = Inr aNewFiles"
| "compare_common opts e aS3FileInfo (sFile # rest) aNewFiles =
     (if bForceTransfer opts then compare_common opts e aS3FileInfo rest (aNewFiles @ [sFile])
      else
        (case map_of aS3FileInfo sFile of
           None \<Rightarrow> Inl (KeyError sFile)
         | Some oFile \<Rightarrow>
             (case md5Checksum e sFile of
                Inl err \<Rightarrow> Inl err
              | Inr sSum \<Rightarrow>
                  if etag oFile \<noteq> sSum
                    then compare_common opts e aS3FileInfo rest (aNewFiles @ [sFile])
                  else if re_match_manifest sFile
                    then compare_common opts e aS3FileInfo rest (aNewFiles @ [sFile])
                  else compare_common opts e aS3FileInfo rest aNewFiles)))"

definition compareFiles ::
  "cmd_options \<Rightarrow> env \<Rightarrow> string list \<Rightarrow> inventory \<Rightarrow> error + (string list \<times> string list)" where
  "compareFiles opts e aBuildFiles aS3FileInfo =
     (let aS3Files = map fst aS3FileInfo;
          aNewFiles = set_minus aBuildFiles aS3Files;
          aOldS3Files = set_minus aS3Files aBuildFiles;
          aCommonFiles = set_inter aBuildFiles aS3Files
      in case compare_common opts e aS3FileInfo aCommonFiles aNewFiles of
           Inl err \<Rightarrow> Inl err
         | Inr aNewFiles' \<Rightarrow> Inr (aNewFiles', aOldS3Files))"

text \<open>The two loops of \<open>maintainVersions\<close>: the first walks the dictionary in its order
  and stops as soon as \<open>iVersions\<close> manifests are collected; the second reads each collected
  manifest from the bucket.\<close>

fun select_manifests :: "inventory \<Rightarrow> string list \<Rightarrow> int \<Rightarrow> s3file list \<Rightarrow> s3file list" where
  "select_manifests [] aOldS3Files iVers aManifests = aManifests"
| "select_manifests ((sKey, oFile) # rest) aOldS3Files iVers aManifests =
     (if iVers \<le> int (length aManifests) then aManifests
      else if re_match_manifest sKey \<and> searchList sKey aOldS3Files \<noteq> None
        then select_manifests rest aOldS3Files iVers (aManifests @ [oFile])
      else select_manifests rest aOldS3Files iVers aManifests)"

fun collect_exclude ::
  "env \<Rightarrow> string \<Rightarrow> string \<Rightarrow> s3file list \<Rightarrow> string list \<Rightarrow> error + string list" where
  "collect_exclude e sBucket sPrefix [] aExclude = Inr aExclude"
| "collect_exclude e sBucket sPrefix (oFile # rest) aExclude =
     (case get_object e sBucket (sPrefix @ ''/'' @ key oFile) of
        Inl err \<Rightarrow> Inl err
      | Inr body \<Rightarrow>
          collect_exclude e sBucket sPrefix rest
            ((aExclude @ [key oFile]) @ findall_url (str_of_bytes body)))"

definition maintainVersions ::
  "env \<Rightarrow> inventory \<Rightarrow> string list \<Rightarrow> int \<Rightarrow> string \<Rightarrow> string \<Rightarrow> error + string list" where
  "maintainVersions e aS3FileInfo aOldS3Files iVers sBucket sPrefix =
     (case collect_exclude e sBucket sPrefix
             (select_manifests aS3FileInfo aOldS3Files iVers []) [] of
        Inl err \<Rightarrow> Inl err
      | Inr aExclude \<Rightarrow> Inr (set_minus aOldS3Files aExclude))"

text \<open>The methods with side effects return the events they caused and, when a call
  raised, the error that ended them.\<close>

fun removeS3Files ::
  "cmd_options \<Rightarrow> env \<Rightarrow> string \<Rightarrow> string \<Rightarrow> string list \<Rightarrow> event list \<times> error option" where
  "removeS3Files opts e sBucket sPrefix [] = ([], None)"
| "removeS3Files opts e sBucket sPrefix (sFile # rest) =
     (let sKey = sPrefix @ ''/'' @ sFile;
          line = Print ('' - removing s3://'' @ sBucket @ ''/'' @ sKey)
      in if \<not> bDryRun opts then
           (case delete_object e sBucket sKey of
              Some err \<Rightarrow> ([line, DeleteObject sBucket sKey], Some err)
            | None \<Rightarrow>
                (let (evs, r) = removeS3Files opts e sBucket sPrefix rest
                 in (line # DeleteObject sBucket sKey # evs, r)))
         else
           (let (evs, r) = removeS3Files opts e sBucket sPrefix rest
            in (line # evs, r)))"

definition sCacheAlways :: string where
  "sCacheAlways = ''max-age='' @ format_d CACHE_SECONDS @ '', public''"

definition sCacheNever :: string where
  "sCacheNever = ''max-age=0, no-cache, must-revalidate, proxy-revalidate, no-store''"

fun transferFiles ::
  "cmd_options \<Rightarrow> env \<Rightarrow> string \<Rightarrow> string \<Rightarrow> string list \<Rightarrow> event list \<times> error option" where
  "transferFiles opts e sBucket sPrefix [] = ([], None)"
| "transferFiles opts e sBucket sPrefix (sFile # rest) =
     (let sKey = sPrefix @ ''/'' @ sFile;
          sMime = guess_type e sFile;
          line = Print ('' - transfering to s3://'' @ sBucket @ ''/'' @ sKey)
      in if \<not> bDryRun opts then
           (case read_file e sFile of
              None \<Rightarrow> ([line], Some (IOError sFile))
            | Some data \<Rightarrow>
                (let req = \<lparr>Body = data, Bucket = sBucket,
                            CacheControl = (if searchList sFile NO_CACHE_FILES = None
                                            then sCacheAlways else sCacheNever),
                            ContentType = sMime, put_Key = sKey\<rparr>
                 in case put_object e req of
                      Some err \<Rightarrow> ([line, PutObject req], Some err)
                    | None \<Rightarrow>
                        (let (evs, r) = transferFiles opts e sBucket sPrefix rest
                         in (line # PutObject req # evs, r))))
         else
           (let (evs, r) = transferFiles opts e sBucket sPrefix rest
            in (line # evs, r)))"

text \<open>\<open>syncToS3\<close> up to the point where both lists are final: the build files, the remote
  inventory, their comparison, and the retention step, which runs only for a version count
  that is present and positive.\<close>

definition syncToS3_lists :: "cmd_options \<Rightarrow> env \<Rightarrow> error + (string list \<times> string list)" where
  "syncToS3_lists opts e =
     (let aBuildFiles = getCwdFiles e;
          sPrefix = ''deployments/'' @ sProduct opts @ ''/'' @ sDeployment opts
      in case getS3Files e (S3_BUCKET e) sPrefix of
           Inl err \<Rightarrow> Inl err
         | Inr aS3FileInfo \<Rightarrow>
             (case compareFiles opts e aBuildFiles aS3FileInfo of
                Inl err \<Rightarrow> Inl err
              | Inr (aNewBuildFiles, aOldS3Files) \<Rightarrow>
                  (case iVersions opts of
                     None \<Rightarrow> Inr (aNewBuildFiles, aOldS3Files)
                   | Some n \<Rightarrow>
                       if n \<noteq> 0 \<and> 0 < n then
                         (case maintainVersions e aS3FileInfo aOldS3Files n (S3_BUCKET e) sPrefix of
                            Inl err \<Rightarrow> Inl err
                          | Inr aOldS3Files' \<Rightarrow> Inr (aNewBuildFiles, aOldS3Files'))
                       else Inr (aNewBuildFiles, aOldS3Files))))"

definition syncToS3 :: "cmd_options \<Rightarrow> env \<Rightarrow> event list \<times> error option" where
  "syncToS3 opts e =
     (if bInvalidCFOnly opts then ([], None)
      else
        (let sPrefix = ''deployments/'' @ sProduct opts @ ''/'' @ sDeployment opts
         in case syncToS3_lists opts e of
              Inl err \<Rightarrow> ([], Some err)
            | Inr (aNewBuildFiles, aOldS3Files) \<Rightarrow>
                (case transferFiles opts e (S3_BUCKET e) sPrefix aNewBuildFiles of
                   (evs, Some err) \<Rightarrow> (evs, Some err)
                 | (evs, None) \<Rightarrow>
                     (let (evs', r) = removeS3Files opts e (S3_BUCKET e) sPrefix aOldS3Files
                      in (evs @ evs', r)))))"

definition statusMsg :: "string \<Rightarrow> bool \<Rightarrow> event list" where
  "statusMsg sMsg bNewLine =
     (if bNewLine then [Print []] else []) @ [Print ('' *** '' @ sMsg @ '' ***'')]"

definition clearCloudFront :: "cmd_options \<Rightarrow> env \<Rightarrow> event list \<times> error option" where
  "clearCloudFront opts e =
     (if bDryRun opts then ([], None)
      else
        (statusMsg (''Clearing CloudFront distribution: '' @ CF_DIST_ID e) True
           @ [CreateInvalidation (CF_DIST_ID e) [''/*''] (''s3-deploy-'' @ now e)],
         create_invalidation e (CF_DIST_ID e) [''/*''] (''s3-deploy-'' @ now e)))"

text \<open>\<open>main\<close> from the point where the options are parsed, the target is validated and
  the process is in the build directory (those steps either end the process or only fill
  in \<open>cmd_options\<close> and \<open>env\<close>; none of them writes to the bucket or the distribution).\<close>

definition main :: "cmd_options \<Rightarrow> env \<Rightarrow> event list \<times> error option" where
  "main opts e =
     (case syncToS3 opts e of
        (evs, Some err) \<Rightarrow> (evs, Some err)
      | (evs, None) \<Rightarrow>
          (let (evs', r) = clearCloudFront opts e in (evs @ evs', r)))"

section \<open>Notions of the specification\<close>

text \<open>A common file is uploaded when the transfer is forced, when its digest differs from
  the remote entity tag, or when its key matches the manifest pattern (section 4.3, step 3).\<close>

definition uploads_common :: "cmd_options \<Rightarrow> env \<Rightarrow> inventory \<Rightarrow> string \<Rightarrow> bool" where
  "uploads_common opts e aS3FileInfo sFile \<longleftrightarrow>
     bForceTransfer opts \<or>
     (\<exists>oFile sSum. map_of aS3FileInfo sFile = Some oFile \<and> md5Checksum e sFile = Inr sSum
        \<and> (etag oFile \<noteq> sSum \<or> re_match_manifest sFile))"

text \<open>The file name of a key in the sense of the specification: what follows the last
  \<open>/\<close>.\<close>

definition spec_filename :: "string \<Rightarrow> string" where
  "spec_filename sKey = rev (takeWhile (\<lambda>c. c \<noteq> CHR ''/'') (rev sKey))"

text \<open>An inventory as section 3 describes it: every record carries the key it is stored
  under, and for the selection of manifests the records are ordered newest first.\<close>

definition inventory_wf :: "inventory \<Rightarrow> bool" where
  "inventory_wf aS3FileInfo \<longleftrightarrow> (\<forall>(sKey, oFile) \<in> set aS3FileInfo. key oFile = sKey)"

definition newest_first :: "inventory \<Rightarrow> bool" where
  "newest_first aS3FileInfo \<longleftrightarrow>
     sorted_wrt (\<lambda>f g. modified g \<le> modified f) (map snd aS3FileInfo)"

text \<open>Section 4.4, step 1: the records whose key matches the manifest pattern and is a
  deletion candidate, ordered newest first, and the first \<open>versionsToKeep\<close> of them.\<close>

definition manifest_candidates :: "inventory \<Rightarrow> string list \<Rightarrow> s3file list" where
  "manifest_candidates aS3FileInfo deleteCandidates =
     filter (\<lambda>f. re_match_manifest (key f) \<and> key f \<in> set deleteCandidates)
       (map snd aS3FileInfo)"

definition newest_manifests :: "int \<Rightarrow> inventory \<Rightarrow> string list \<Rightarrow> s3file list" where
  "newest_manifests versionsToKeep aS3FileInfo deleteCandidates =
     take (nat versionsToKeep)
       (sort_key (\<lambda>f. - modified f) (manifest_candidates aS3FileInfo deleteCandidates))"

text \<open>Section 4.4, step 2: the asset paths a manifest refers to are the \<open>url\<close> entries of
  its content in the bucket; the exclusion set holds each selected manifest's key and the
  paths it refers to.\<close>

definition referenced_paths :: "env \<Rightarrow> string \<Rightarrow> string \<Rightarrow> s3file \<Rightarrow> string list" where
  "referenced_paths e sBucket sPrefix oFile =
     (case get_object e sBucket (sPrefix @ ''/'' @ key oFile) of
        Inl err \<Rightarrow> []
      | Inr body \<Rightarrow> findall_url body)"

definition spec_exclusion_set :: "env \<Rightarrow> string \<Rightarrow> string \<Rightarrow> s3file list \<Rightarrow> string set" where
  "spec_exclusion_set e sBucket sPrefix aManifests =
     (\<Union>oFile \<in> set aManifests.
        insert (key oFile) (set (referenced_paths e sBucket sPrefix oFile)))"

text \<open>What \<open>maintainVersions\<close> collects in \<open>aExclude\<close>: it looks for the \<open>url\<close> entries in
  \<open>str\<close> of the content, the printed form of the bytes.\<close>

definition extracted_paths :: "env \<Rightarrow> string \<Rightarrow> string \<Rightarrow> s3file \<Rightarrow> string list" where
  "extracted_paths e sBucket sPrefix oFile =
     (case get_object e sBucket (sPrefix @ ''/'' @ key oFile) of
        Inl err \<Rightarrow> []
      | Inr body \<Rightarrow> findall_url (str_of_bytes body))"

definition exclusion_set :: "env \<Rightarrow> string \<Rightarrow> string \<Rightarrow> s3file list \<Rightarrow> string set" where
  "exclusion_set e sBucket sPrefix aManifests =
     (\<Union>oFile \<in> set aManifests.
        insert (key oFile) (set (extracted_paths e sBucket sPrefix oFile)))"

text \<open>Content that its printed form shows unchanged between the quotes: printable ASCII
  without apostrophe and backslash.\<close>

definition plain_bytes :: "bytes \<Rightarrow> bool" where
  "plain_bytes b \<longleftrightarrow>
     list_all (\<lambda>c. c \<noteq> squote \<and> c \<noteq> backslash
                  \<and> 32 \<le> (of_char c :: nat) \<and> (of_char c :: nat) < 127) b"

text \<open>The cache policy of section 4.5, by file.\<close>

definition spec_cache_control :: "string \<Rightarrow> string" where
  "spec_cache_control sFile =
     (if sFile = ''index.html'' \<or> sFile = ''asset-manifest.json''
      then ''max-age=0, no-cache, must-revalidate, proxy-revalidate, no-store''
      else ''max-age=7776000, public'')"

section \<open>A sample deployment\<close>

text \<open>Release 3 of product \<open>app\<close> is deployed to \<open>live\<close>; the bucket holds releases 1 and 2
  and one object of release 3.  The sample digest of a content is the content itself behind
  a tag.\<close>

definition demo_prefix :: string where
  "demo_prefix = ''deployments/app/live''"

definition demo_manifest :: "string \<Rightarrow> bytes" where
  "demo_manifest sUrl = ''[{'' @ url_marker @ sUrl @ [dquote] @ ''}]''"

definition demo_object :: "string \<Rightarrow> string \<Rightarrow> int \<Rightarrow> s3object" where
  "demo_object sFile content t =
     \<lparr>Key = demo_prefix @ ''/'' @ sFile, ETag = dquote # ''md5:'' @ content @ [dquote],
      Size = length content, LastModified = t\<rparr>"

definition demo_listing :: "s3object list" where
  "demo_listing =
     [demo_object ''index.html'' ''v2'' 200,
      demo_object ''precache-manifest.1.js'' (demo_manifest ''static/app.1.js'') 100,
      demo_object ''precache-manifest.2.js'' (demo_manifest ''static/app.2.js'') 200,
      demo_object ''static/app.1.js'' ''js1'' 100,
      demo_object ''static/app.2.js'' ''js2'' 200,
      demo_object ''static/logo.png'' ''png'' 100,
      demo_object ''static/precache-manifest.js'' ''sub'' 100]"

definition demo_local :: "(string \<times> bytes) list" where
  "demo_local =
     [(''index.html'', ''v3''),
      (''asset-manifest.json'', ''am3''),
      (''precache-manifest.3.js'', demo_manifest ''static/app.3.js''),
      (''static/app.3.js'', ''js3''),
      (''static/logo.png'', ''png''),
      (''static/precache-manifest.js'', ''sub'')]"

definition demo_env :: env where
  "demo_env =
     \<lparr>S3_BUCKET = ''bucket'', CF_DIST_ID = ''DIST'',
      walk = [(''.'', [''static''],
                [''index.html'', ''asset-manifest.json'', ''precache-manifest.3.js'']),
              (''./static'', [], [''app.3.js'', ''logo.png'', ''precache-manifest.js''])],
      read_file = map_of demo_local,
      md5_hex = (\<lambda>b. ''md5:'' @ b),
      guess_type = (\<lambda>sFile. Some ''text/plain''),
      now = ''2020-01-01'',
      list_objects_v2 = (\<lambda>sBucket sPrefix.
        if sBucket = ''bucket'' \<and> sPrefix = demo_prefix
        then Inr \<lparr>Contents = Some demo_listing\<rparr> else Inr \<lparr>Contents = None\<rparr>),
      get_object = (\<lambda>sBucket sKey.
        if sKey = demo_prefix @ ''/precache-manifest.1.js''
          then Inr (demo_manifest ''static/app.1.js'')
        else if sKey = demo_prefix @ ''/precache-manifest.2.js''
          then Inr (demo_manifest ''static/app.2.js'')
        else Inl (ClientError ''NoSuchKey'')),
      put_object = (\<lambda>req. None),
      delete_object = (\<lambda>sBucket sKey. None),
      create_invalidation = (\<lambda>sDist aPaths sRef. None)\<rparr>"

definition demo_opts :: cmd_options where
  "demo_opts =
     \<lparr>sProduct = ''app'', sDeployment = ''live'', sBuildDir = ''build'', bDryRun = False,
      bForceTransfer = False, bInvalidCFOnly = False, iVersions = Some 1\<rparr>"

definition demo_file :: "string \<Rightarrow> bytes \<Rightarrow> int \<Rightarrow> string \<times> s3file" where
  "demo_file sFile content t =
     (sFile, \<lparr>key = sFile, etag = ''md5:'' @ content, fsize = length content, modified = t\<rparr>)"

definition demo_inventory :: inventory where
  "demo_inventory =
     [demo_file ''index.html'' ''v2'' 200,
      demo_file ''precache-manifest.2.js'' (demo_manifest ''static/app.2.js'') 200,
      demo_file ''static/app.2.js'' ''js2'' 200,
      demo_file ''precache-manifest.1.js'' (demo_manifest ''static/app.1.js'') 100,
      demo_file ''static/app.1.js'' ''js1'' 100,
      demo_file ''static/logo.png'' ''png'' 100,
      demo_file ''static/precache-manifest.js'' ''sub'' 100]"

definition demo_build :: "string list" where
  "demo_build =
     [''index.html'', ''asset-manifest.json'', ''precache-manifest.3.js'',
      ''static/app.3.js'', ''static/logo.png'', ''static/precache-manifest.js'']"

definition demo_old :: "string list" where
  "demo_old =
     [''precache-manifest.2.js'', ''static/app.2.js'', ''precache-manifest.1.js'',
      ''static/app.1.js'']"

text \<open>Release 2 with an asset whose name has an apostrophe.\<close>

definition demo_quote_path :: string where
  "demo_quote_path = ''static/it'' @ [squote] @ ''s.js''"

definition demo_quote_inventory :: inventory where
  "demo_quote_inventory =
     [demo_file ''precache-manifest.2.js'' (demo_manifest demo_quote_path) 200,
      demo_file demo_quote_path ''js2'' 200]"

definition demo_quote_old :: "string list" where
  "demo_quote_old = [''precache-manifest.2.js'', demo_quote_path]"

definition demo_quote_env :: env where
  "demo_quote_env =
     demo_env\<lparr>get_object := (\<lambda>sBucket sKey.
        if sKey = demo_prefix @ ''/precache-manifest.2.js''
        then Inr (demo_manifest demo_quote_path)
        else Inl (ClientError ''NoSuchKey''))\<rparr>"

text \<open>A build with a directory whose name begins with \<open>precache-manifest\<close>; the file in
  it is in the bucket already, with the same content.\<close>

definition demo_dir_key :: string where
  "demo_dir_key = ''precache-manifest.old/logo.png''"

definition demo_dir_inventory :: inventory where
  "demo_dir_inventory = [demo_file demo_dir_key ''png'' 100]"

definition demo_dir_env :: env where
  "demo_dir_env =
     demo_env\<lparr>read_file := (\<lambda>filePath. if filePath = demo_dir_key then Some ''png'' else None)\<rparr>"

definition demo_put_index :: put_request where
  "demo_put_index =
     \<lparr>Body = ''v3'', Bucket = ''bucket'',
      CacheControl = ''max-age=0, no-cache, must-revalidate, proxy-revalidate, no-store'',
      ContentType = Some ''text/plain'', put_Key = ''deployments/app/live/index.html''\<rparr>"

definition demo_put_app :: put_request where
  "demo_put_app =
     \<lparr>Body = ''js3'', Bucket = ''bucket'', CacheControl = ''max-age=7776000, public'',
      ContentType = Some ''text/plain'', put_Key = ''deployments/app/live/static/app.3.js''\<rparr>"

section \<open>Reading and hashing\<close>

lemma md5_read_loop_eq: "md5_read_loop m fh = m @ fh"
proof (induction m fh rule: md5_read_loop.induct)
  case (1 m fh)
  show ?case
  proof (cases "take 8192 fh = []")
    case True
    then have "fh = []" by simp
    with True show ?thesis by (simp add: md5_read_loop.simps)
  next
    case False
    from "1.IH"[OF refl False] have "md5_read_loop (m @ take 8192 fh) (drop 8192 fh) = m @ fh"
      by simp
    with False show ?thesis by (subst md5_read_loop.simps) (simp add: Let_def)
  qed
qed

text \<open>The digest does not depend on the chunk size: \<open>md5Checksum\<close> is the digest of the
  whole content, or an \<open>IOError\<close> for a file that cannot be read.\<close>

lemma md5Checksum_eq:
  "md5Checksum e filePath =
     (case read_file e filePath of None \<Rightarrow> Inl (IOError filePath)
      | Some fh \<Rightarrow> Inr (md5_hex e fh))"
  by (simp add: md5Checksum_def md5_read_loop_eq split: option.split)

lemmas demo_defs =
  demo_opts_def demo_env_def demo_build_def demo_inventory_def demo_file_def demo_old_def
  demo_local_def demo_manifest_def demo_prefix_def demo_listing_def demo_object_def
  url_marker_def dquote_def newline_def squote_def backslash_def

section \<open>Reconciliation: \<open>compareFiles\<close>\<close>

lemma set_set_minus: "set (set_minus a b) = set a - set b"
  by (auto simp: set_minus_def)

lemma set_set_inter: "set (set_inter a b) = set a \<inter> set b"
  by (auto simp: set_inter_def)

lemma searchList_None: "searchList x xs = None \<longleftrightarrow> x \<notin> set xs"
  by (induction xs) auto

lemma compare_common_set:
  "compare_common opts e info xs acc = Inr new \<Longrightarrow>
     set new = set acc \<union> {x \<in> set xs. uploads_common opts e info x}"
proof (induction xs arbitrary: acc)
  case Nil
  then show ?case by simp
next
  case (Cons x xs)
  show ?case
  proof (cases "bForceTransfer opts")
    case True
    with Cons.prems have "compare_common opts e info xs (acc @ [x]) = Inr new" by simp
    from Cons.IH[OF this] True show ?thesis by (auto simp: uploads_common_def)
  next
    case False
    from Cons.prems False obtain oFile sSum where
      look: "map_of info x = Some oFile" and sum: "md5Checksum e x = Inr sSum"
      by (auto split: option.splits sum.splits)
    show ?thesis
    proof (cases "etag oFile \<noteq> sSum \<or> re_match_manifest x")
      case True
      with Cons.prems False look sum
      have "compare_common opts e info xs (acc @ [x]) = Inr new" by (auto split: if_splits)
      from Cons.IH[OF this] True look sum show ?thesis by (auto simp: uploads_common_def)
    next
      case no: False
      with Cons.prems False look sum
      have "compare_common opts e info xs acc = Inr new" by (auto split: if_splits)
      from Cons.IH[OF this] no False look sum show ?thesis by (auto simp: uploads_common_def)
    qed
  qed
qed

lemma compare_common_reads:
  "compare_common opts e info xs acc = Inr new \<Longrightarrow> \<not> bForceTransfer opts \<Longrightarrow> x \<in> set xs \<Longrightarrow>
     \<exists>oFile sSum. map_of info x = Some oFile \<and> md5Checksum e x = Inr sSum"
proof (induction xs arbitrary: acc)
  case Nil
  then show ?case by simp
next
  case (Cons y ys)
  from Cons.prems(1,2) obtain oFile sSum where
    look: "map_of info y = Some oFile" and sum: "md5Checksum e y = Inr sSum"
    by (auto split: option.splits sum.splits)
  from Cons.prems(1,2) look sum obtain acc' where
    rest: "compare_common opts e info ys acc' = Inr new"
    by (auto split: if_splits)
  show ?case
  proof (cases "x = y")
    case True
    with look sum show ?thesis by blast
  next
    case False
    with Cons.prems(3) have "x \<in> set ys" by simp
    from Cons.IH[OF rest Cons.prems(2) this] show ?thesis .
  qed
qed

lemma compare_common_force:
  "bForceTransfer opts \<Longrightarrow> compare_common opts e info xs acc = Inr (acc @ xs)"
  by (induction xs arbitrary: acc) auto

lemma compare_common_returns:
  "\<forall>x \<in> set xs. map_of info x \<noteq> None \<and> read_file e x \<noteq> None \<Longrightarrow>
     \<exists>new. compare_common opts e info xs acc = Inr new"
  by (induction xs arbitrary: acc) (auto simp: md5Checksum_eq)

lemma compareFiles_unfold:
  assumes "compareFiles opts e aBuildFiles aS3FileInfo = Inr (aNew, aOld)"
  shows "compare_common opts e aS3FileInfo (set_inter aBuildFiles (map fst aS3FileInfo))
           (set_minus aBuildFiles (map fst aS3FileInfo)) = Inr aNew"
    and "aOld = set_minus (map fst aS3FileInfo) aBuildFiles"
  using assms by (auto simp: compareFiles_def Let_def split: sum.splits)

lemma compareFiles_upload_set:
  assumes "compareFiles opts e aBuildFiles aS3FileInfo = Inr (aNew, aOld)"
  shows "set aNew = (set aBuildFiles - fst ` set aS3FileInfo)
           \<union> {x \<in> set aBuildFiles \<inter> fst ` set aS3FileInfo. uploads_common opts e aS3FileInfo x}"
  using compare_common_set[OF compareFiles_unfold(1)[OF assms]]
  by (simp add: set_set_minus set_set_inter)

lemma compareFiles_delete_set:
  assumes "compareFiles opts e aBuildFiles aS3FileInfo = Inr (aNew, aOld)"
  shows "set aOld = fst ` set aS3FileInfo - set aBuildFiles"
  using compareFiles_unfold(2)[OF assms] by (simp add: set_set_minus)

text \<open>The comparison returns whenever every common file can be read.\<close>

lemma compareFiles_returns:
  assumes "\<forall>x \<in> set aBuildFiles \<inter> fst ` set aS3FileInfo. read_file e x \<noteq> None"
  shows "\<exists>aNew aOld. compareFiles opts e aBuildFiles aS3FileInfo = Inr (aNew, aOld)"
proof -
  have "\<forall>x \<in> set (set_inter aBuildFiles (map fst aS3FileInfo)).
          map_of aS3FileInfo x \<noteq> None \<and> read_file e x \<noteq> None"
    using assms by (auto simp: set_set_inter map_of_eq_None_iff)
  from compare_common_returns[OF this] obtain new where
    "compare_common opts e aS3FileInfo (set_inter aBuildFiles (map fst aS3FileInfo))
       (set_minus aBuildFiles (map fst aS3FileInfo)) = Inr new"
    by blast
  then show ?thesis by (simp add: compareFiles_def Let_def)
qed

lemma demo_getCwdFiles: "getCwdFiles demo_env = demo_build"
  by (simp add: getCwdFiles_def demo_env_def demo_build_def strip_dot_slash_def)

lemma demo_compareFiles_any:
  "\<not> bForceTransfer opts \<Longrightarrow>
     compareFiles opts demo_env (getCwdFiles demo_env) demo_inventory =
       Inr ([''asset-manifest.json'', ''precache-manifest.3.js'', ''static/app.3.js'',
             ''index.html''], demo_old)"
  unfolding demo_getCwdFiles
  by (simp add: compareFiles_def set_minus_def set_inter_def md5Checksum_eq
        re_match_manifest_def demo_defs)

lemma demo_compareFiles:
  "compareFiles demo_opts demo_env demo_build demo_inventory =
     Inr ([''asset-manifest.json'', ''precache-manifest.3.js'', ''static/app.3.js'',
           ''index.html''], demo_old)"
  using demo_compareFiles_any[of demo_opts] unfolding demo_getCwdFiles
  by (simp add: demo_opts_def)

text \<open>Claim C2.  Whenever \<open>compareFiles\<close> returns, the files to upload and the files to
  delete have no key in common, every file to upload is a build file, and every file to
  delete is a key of the remote inventory.\<close>

theorem compareFiles_disjoint:
  assumes "compareFiles opts e aBuildFiles aS3FileInfo = Inr (toUpload, toDelete)"
  shows "set toUpload \<inter> set toDelete = {}
       \<and> set toUpload \<subseteq> set aBuildFiles
       \<and> set toDelete \<subseteq> fst ` set aS3FileInfo"
  using compareFiles_upload_set[OF assms] compareFiles_delete_set[OF assms] by auto

theorem compareFiles_disjoint_witness:
  "compareFiles demo_opts demo_env demo_build demo_inventory =
     Inr ([''asset-manifest.json'', ''precache-manifest.3.js'', ''static/app.3.js'',
           ''index.html''], demo_old)
   \<and> set [''asset-manifest.json'', ''precache-manifest.3.js'', ''static/app.3.js'',
           ''index.html''] \<inter> set demo_old = {}
   \<and> set [''asset-manifest.json'', ''precache-manifest.3.js'', ''static/app.3.js'',
           ''index.html''] \<subseteq> set demo_build
   \<and> set demo_old \<subseteq> fst ` set demo_inventory"
  using compareFiles_disjoint[OF demo_compareFiles] demo_compareFiles by blast

text \<open>Claim C3, as stated, fails: the manifest pattern of the specification is about the
  file name, and the code matches the whole key.  The file name \<open>logo.png\<close> of the key
  \<open>precache-manifest.old/logo.png\<close> does not begin with \<open>precache-manifest\<close>, the key is a
  build file and a remote key, the digest equals the entity tag and the transfer is not
  forced; yet the key is uploaded.\<close>

theorem directory_named_like_manifest_counterexample:
  "demo_dir_key \<in> set [demo_dir_key]
   \<and> map_of demo_dir_inventory demo_dir_key = Some (snd (demo_file demo_dir_key ''png'' 100))
   \<and> \<not> bForceTransfer demo_opts
   \<and> md5Checksum demo_dir_env demo_dir_key
       = Inr (etag (snd (demo_file demo_dir_key ''png'' 100)))
   \<and> \<not> prefix ''precache-manifest'' (spec_filename demo_dir_key)
   \<and> compareFiles demo_opts demo_dir_env [demo_dir_key] demo_dir_inventory
       = Inr ([demo_dir_key], [])
   \<and> demo_dir_key \<in> set (fst ([demo_dir_key], [] :: string list))"
proof -
  have "map_of demo_dir_inventory demo_dir_key = Some (snd (demo_file demo_dir_key ''png'' 100))"
    by (simp add: demo_dir_inventory_def demo_file_def)
  moreover have "\<not> bForceTransfer demo_opts" by (simp add: demo_opts_def)
  moreover have "md5Checksum demo_dir_env demo_dir_key
                   = Inr (etag (snd (demo_file demo_dir_key ''png'' 100)))"
    by (simp add: md5Checksum_eq demo_dir_env_def demo_env_def demo_file_def)
  moreover have "\<not> prefix ''precache-manifest'' (spec_filename demo_dir_key)"
    by (simp add: spec_filename_def demo_dir_key_def)
  moreover have "compareFiles demo_opts demo_dir_env [demo_dir_key] demo_dir_inventory
                   = Inr ([demo_dir_key], [])"
    by (simp add: compareFiles_def set_minus_def set_inter_def md5Checksum_eq
          re_match_manifest_def demo_dir_inventory_def demo_file_def demo_dir_env_def
          demo_env_def demo_opts_def demo_dir_key_def)
  ultimately show ?thesis by simp
qed

text \<open>Claim C3, amended.  A key that is both a build file and a remote key, whose digest
  equals the remote entity tag and which does not itself begin with \<open>precache-manifest\<close>,
  is neither uploaded nor deleted when the transfer is not forced.\<close>

theorem checksum_equal_noop:
  assumes "sFile \<in> set aBuildFiles"
    and "map_of aS3FileInfo sFile = Some oFile"
    and "\<not> bForceTransfer opts"
    and "md5Checksum e sFile = Inr (etag oFile)"
    and "\<not> re_match_manifest sFile"
    and "compareFiles opts e aBuildFiles aS3FileInfo = Inr (toUpload, toDelete)"
  shows "sFile \<notin> set toUpload \<and> sFile \<notin> set toDelete"
proof -
  from assms(2) have "sFile \<in> fst ` set aS3FileInfo"
    by (metis domI dom_map_of_conv_image_fst)
  moreover from assms(2-5) have "\<not> uploads_common opts e aS3FileInfo sFile"
    by (auto simp: uploads_common_def)
  ultimately show ?thesis
    using compareFiles_upload_set[OF assms(6)] compareFiles_delete_set[OF assms(6)] assms(1)
    by auto
qed

theorem checksum_equal_noop_witness:
  "''static/logo.png'' \<in> set demo_build
   \<and> map_of demo_inventory ''static/logo.png'' = Some (snd (demo_file ''static/logo.png'' ''png'' 100))
   \<and> \<not> bForceTransfer demo_opts
   \<and> md5Checksum demo_env ''static/logo.png''
       = Inr (etag (snd (demo_file ''static/logo.png'' ''png'' 100)))
   \<and> \<not> re_match_manifest ''static/logo.png''
   \<and> ''static/logo.png'' \<notin> set [''asset-manifest.json'', ''precache-manifest.3.js'',
         ''static/app.3.js'', ''index.html'']
   \<and> ''static/logo.png'' \<notin> set demo_old"
proof -
  have h1: "''static/logo.png'' \<in> set demo_build" by (simp add: demo_build_def)
  have h2: "map_of demo_inventory ''static/logo.png''
              = Some (snd (demo_file ''static/logo.png'' ''png'' 100))"
    by (simp add: demo_inventory_def demo_file_def)
  have h3: "\<not> bForceTransfer demo_opts" by (simp add: demo_opts_def)
  have h4: "md5Checksum demo_env ''static/logo.png''
              = Inr (etag (snd (demo_file ''static/logo.png'' ''png'' 100)))"
    by (simp add: md5Checksum_eq demo_defs)
  have h5: "\<not> re_match_manifest ''static/logo.png''" by (simp add: re_match_manifest_def)
  from checksum_equal_noop[OF h1 h2 h3 h4 h5 demo_compareFiles] h1 h2 h3 h4 h5
  show ?thesis by blast
qed

text \<open>Claim C4, as stated, fails: the pattern is matched against the whole key, so a file
  in a subdirectory whose name begins with \<open>precache-manifest\<close> is left alone when its
  digest equals the entity tag.\<close>

theorem manifest_in_subdirectory_counterexample:
  "''static/precache-manifest.js'' \<in> set demo_build
   \<and> ''static/precache-manifest.js'' \<in> fst ` set demo_inventory
   \<and> prefix ''precache-manifest'' (spec_filename ''static/precache-manifest.js'')
   \<and> \<not> bForceTransfer demo_opts
   \<and> compareFiles demo_opts demo_env demo_build demo_inventory =
       Inr ([''asset-manifest.json'', ''precache-manifest.3.js'', ''static/app.3.js'',
             ''index.html''], demo_old)
   \<and> ''static/precache-manifest.js'' \<notin> set [''asset-manifest.json'',
         ''precache-manifest.3.js'', ''static/app.3.js'', ''index.html'']"
proof -
  have "''static/precache-manifest.js'' \<in> set demo_build" by (simp add: demo_build_def)
  moreover have "''static/precache-manifest.js'' \<in> fst ` set demo_inventory"
    by (simp add: demo_inventory_def demo_file_def)
  moreover have "prefix ''precache-manifest'' (spec_filename ''static/precache-manifest.js'')"
    by (simp add: spec_filename_def)
  moreover have "\<not> bForceTransfer demo_opts" by (simp add: demo_opts_def)
  ultimately show ?thesis using demo_compareFiles by simp
qed

text \<open>Claim C4, amended.  A key that is both a build file and a remote key and that itself
  begins with \<open>precache-manifest\<close> is uploaded whenever \<open>compareFiles\<close> returns, also when
  the transfer is not forced and the digest equals the entity tag.\<close>

theorem manifest_key_uploaded:
  assumes "sFile \<in> set aBuildFiles"
    and "sFile \<in> fst ` set aS3FileInfo"
    and "re_match_manifest sFile"
    and "compareFiles opts e aBuildFiles aS3FileInfo = Inr (toUpload, toDelete)"
  shows "sFile \<in> set toUpload"
proof -
  have "uploads_common opts e aS3FileInfo sFile"
  proof (cases "bForceTransfer opts")
    case True
    then show ?thesis by (simp add: uploads_common_def)
  next
    case False
    from assms(1,2) have "sFile \<in> set (set_inter aBuildFiles (map fst aS3FileInfo))"
      by (simp add: set_set_inter)
    from compare_common_reads[OF compareFiles_unfold(1)[OF assms(4)] False this] assms(3)
    show ?thesis by (auto simp: uploads_common_def)
  qed
  with compareFiles_upload_set[OF assms(4)] assms(1,2) show ?thesis by simp
qed

theorem manifest_key_uploaded_witness:
  "''precache-manifest.3.js'' \<in> set demo_build
   \<and> ''precache-manifest.3.js'' \<in> fst ` set (demo_file ''precache-manifest.3.js''
         (demo_manifest ''static/app.3.js'') 300 # demo_inventory)
   \<and> re_match_manifest ''precache-manifest.3.js''
   \<and> \<not> bForceTransfer demo_opts
   \<and> md5Checksum demo_env ''precache-manifest.3.js''
       = Inr (etag (snd (demo_file ''precache-manifest.3.js''
                           (demo_manifest ''static/app.3.js'') 300)))
   \<and> compareFiles demo_opts demo_env demo_build
        (demo_file ''precache-manifest.3.js'' (demo_manifest ''static/app.3.js'') 300
           # demo_inventory)
       = Inr ([''asset-manifest.json'', ''static/app.3.js'', ''index.html'',
               ''precache-manifest.3.js''], demo_old)
   \<and> ''precache-manifest.3.js'' \<in> set [''asset-manifest.json'', ''static/app.3.js'',
         ''index.html'', ''precache-manifest.3.js'']"
proof -
  have h1: "''precache-manifest.3.js'' \<in> set demo_build" by (simp add: demo_build_def)
  have h2: "''precache-manifest.3.js'' \<in> fst ` set (demo_file ''precache-manifest.3.js''
              (demo_manifest ''static/app.3.js'') 300 # demo_inventory)"
    by (simp add: demo_file_def)
  have h3: "re_match_manifest ''precache-manifest.3.js''" by (simp add: re_match_manifest_def)
  have h4: "compareFiles demo_opts demo_env demo_build
              (demo_file ''precache-manifest.3.js'' (demo_manifest ''static/app.3.js'') 300
                 # demo_inventory)
            = Inr ([''asset-manifest.json'', ''static/app.3.js'', ''index.html'',
                    ''precache-manifest.3.js''], demo_old)"
    by (simp add: compareFiles_def set_minus_def set_inter_def md5Checksum_eq
          re_match_manifest_def demo_defs)
  have h5: "\<not> bForceTransfer demo_opts" by (simp add: demo_opts_def)
  have h6: "md5Checksum demo_env ''precache-manifest.3.js''
              = Inr (etag (snd (demo_file ''precache-manifest.3.js''
                                  (demo_manifest ''static/app.3.js'') 300)))"
    by (simp add: md5Checksum_eq demo_defs)
  from manifest_key_uploaded[OF h1 h2 h3 h4] h1 h2 h3 h4 h5 h6 show ?thesis by blast
qed

text \<open>Claim C5.  With a forced transfer \<open>compareFiles\<close> always returns, and every key that
  is both a build file and a remote key is uploaded, whatever the checksums are.\<close>

theorem force_uploads_common:
  assumes "bForceTransfer opts"
  shows "\<exists>toUpload toDelete.
           compareFiles opts e aBuildFiles aS3FileInfo = Inr (toUpload, toDelete)
           \<and> set aBuildFiles \<inter> fst ` set aS3FileInfo \<subseteq> set toUpload"
proof -
  have "compareFiles opts e aBuildFiles aS3FileInfo =
          Inr (set_minus aBuildFiles (map fst aS3FileInfo)
                 @ set_inter aBuildFiles (map fst aS3FileInfo),
               set_minus (map fst aS3FileInfo) aBuildFiles)"
    using assms by (simp add: compareFiles_def Let_def compare_common_force)
  then show ?thesis by (simp add: set_set_inter)
qed

theorem force_uploads_common_witness:
  "bForceTransfer (demo_opts\<lparr>bForceTransfer := True\<rparr>)
   \<and> (\<exists>toUpload toDelete.
        compareFiles (demo_opts\<lparr>bForceTransfer := True\<rparr>) demo_env demo_build demo_inventory
          = Inr (toUpload, toDelete)
        \<and> set demo_build \<inter> fst ` set demo_inventory \<subseteq> set toUpload)"
proof -
  have h: "bForceTransfer (demo_opts\<lparr>bForceTransfer := True\<rparr>)" by simp
  from force_uploads_common[OF h] h show ?thesis by blast
qed

section \<open>The remote inventory: \<open>getS3Files\<close>\<close>

lemma update_fresh: "k \<notin> fst ` set al \<Longrightarrow> AList.update k v al = al @ [(k, v)]"
  by (induction al) auto

lemma set_update_subset: "set (AList.update k v al) \<subseteq> insert (k, v) (set al)"
  by (induction al) auto

lemma foldl_update_distinct:
  "distinct (map kf xs) \<Longrightarrow> kf ` set xs \<inter> fst ` set al = {} \<Longrightarrow>
     foldl (\<lambda>d x. AList.update (kf x) (vf x) d) al xs = al @ map (\<lambda>x. (kf x, vf x)) xs"
proof (induction xs arbitrary: al)
  case Nil
  then show ?case by simp
next
  case (Cons x xs)
  from Cons.prems(2) have fresh: "kf x \<notin> fst ` set al" by auto
  have "kf ` set xs \<inter> fst ` set (al @ [(kf x, vf x)]) = {}"
    using Cons.prems by auto
  with Cons.IH[of "al @ [(kf x, vf x)]"] Cons.prems(1)
  show ?case by (simp add: update_fresh[OF fresh])
qed

lemma foldl_update_wf:
  "\<forall>(k, f) \<in> set al. P k f \<Longrightarrow> \<forall>x \<in> set xs. P (kf x) (vf x) \<Longrightarrow>
     \<forall>(k, f) \<in> set (foldl (\<lambda>d x. AList.update (kf x) (vf x) d) al xs). P k f"
proof (induction xs arbitrary: al)
  case Nil
  then show ?case by simp
next
  case (Cons x xs)
  have "\<forall>(k, f) \<in> set (AList.update (kf x) (vf x) al). P k f"
    using set_update_subset[of "kf x" "vf x" al] Cons.prems by auto
  with Cons.IH[of "AList.update (kf x) (vf x) al"] Cons.prems(2) show ?case by simp
qed

text \<open>Every record of an inventory that \<open>getS3Files\<close> returns carries its own key.\<close>

lemma getS3Files_wf:
  assumes "getS3Files e sBucket sPrefix = Inr aS3FileInfo"
  shows "inventory_wf aS3FileInfo"
proof -
  from assms obtain oResponse where
    r: "list_objects_v2 e sBucket sPrefix = Inr oResponse"
    by (auto simp: getS3Files_def split: sum.splits)
  show ?thesis
  proof (cases "Contents oResponse")
    case None
    with assms r show ?thesis by (simp add: getS3Files_def inventory_wf_def)
  next
    case (Some aContents)
    have "\<forall>(k, f) \<in> set (foldl
             (\<lambda>d x. AList.update (str_replace (sPrefix @ ''/'') [] (Key x))
                \<lparr>key = str_replace (sPrefix @ ''/'') [] (Key x),
                 etag = strip_etag_quotes (ETag x), fsize = Size x,
                 modified = LastModified x\<rparr> d)
             [] (sort_key (\<lambda>obj. - LastModified obj) aContents)). key f = k"
      by (rule foldl_update_wf) simp_all
    with assms r Some show ?thesis by (simp add: getS3Files_def inventory_wf_def Let_def)
  qed
qed

text \<open>When no two listed objects get the same key once the prefix is taken out, the
  inventory lists the objects newest first.\<close>

lemma getS3Files_newest_first:
  assumes "list_objects_v2 e sBucket sPrefix = Inr oResponse"
    and "Contents oResponse = Some aContents"
    and "distinct (map (\<lambda>obj. str_replace (sPrefix @ ''/'') [] (Key obj)) aContents)"
    and "getS3Files e sBucket sPrefix = Inr aS3FileInfo"
  shows "newest_first aS3FileInfo"
proof -
  let ?kf = "\<lambda>obj. str_replace (sPrefix @ ''/'') [] (Key obj)"
  let ?vf = "\<lambda>x. \<lparr>key = ?kf x, etag = strip_etag_quotes (ETag x), fsize = Size x,
                    modified = LastModified x\<rparr>"
  let ?srt = "sort_key (\<lambda>obj. - LastModified obj) aContents"
  have "distinct (map ?kf ?srt)"
    using assms(3) by (simp add: distinct_map inj_on_def)
  then have "foldl (\<lambda>d x. AList.update (?kf x) (?vf x) d) [] ?srt
               = [] @ map (\<lambda>x. (?kf x, ?vf x)) ?srt"
    by (rule foldl_update_distinct) simp
  with assms(1,2,4) have info: "aS3FileInfo = map (\<lambda>x. (?kf x, ?vf x)) ?srt"
    by (simp add: getS3Files_def Let_def)
  have "sorted (map (\<lambda>obj. - LastModified obj) ?srt)" by (rule sorted_sort_key)
  then have "sorted_wrt (\<lambda>x y. LastModified y \<le> LastModified x) ?srt"
    by (simp add: sorted_map)
  then show ?thesis
    by (simp add: newest_first_def info sorted_wrt_map o_def)
qed

text \<open>Claim C9.  When the listing call answers without \<open>Contents\<close>, or with an empty
  \<open>Contents\<close>, \<open>getS3Files\<close> returns the empty inventory and no error.\<close>

theorem getS3Files_empty_listing:
  assumes "list_objects_v2 e sBucket sPrefix = Inr oResponse"
    and "Contents oResponse = None \<or> Contents oResponse = Some []"
  shows "getS3Files e sBucket sPrefix = Inr []"
  using assms by (auto simp: getS3Files_def)

theorem getS3Files_empty_listing_witness:
  "list_objects_v2 demo_env ''bucket'' ''deployments/app/test'' = Inr \<lparr>Contents = None\<rparr>
   \<and> getS3Files demo_env ''bucket'' ''deployments/app/test'' = Inr []
   \<and> list_objects_v2 (demo_env\<lparr>list_objects_v2 := \<lambda>b p. Inr \<lparr>Contents = Some []\<rparr>\<rparr>)
        ''bucket'' demo_prefix = Inr \<lparr>Contents = Some []\<rparr>
   \<and> getS3Files (demo_env\<lparr>list_objects_v2 := \<lambda>b p. Inr \<lparr>Contents = Some []\<rparr>\<rparr>)
        ''bucket'' demo_prefix = Inr []"
proof -
  have h1: "list_objects_v2 demo_env ''bucket'' ''deployments/app/test''
              = Inr \<lparr>Contents = None\<rparr>"
    by (simp add: demo_env_def demo_prefix_def)
  have h2: "list_objects_v2 (demo_env\<lparr>list_objects_v2 := \<lambda>b p. Inr \<lparr>Contents = Some []\<rparr>\<rparr>)
              ''bucket'' demo_prefix = Inr \<lparr>Contents = Some []\<rparr>"
    by simp
  from getS3Files_empty_listing[OF h1] getS3Files_empty_listing[OF h2] h1 h2
  show ?thesis by simp
qed

section \<open>Version retention: \<open>maintainVersions\<close>\<close>

lemma select_manifests_eq:
  "select_manifests info old n acc =
     (if n \<le> int (length acc) then acc
      else acc @ take (nat n - length acc)
             (map snd (filter (\<lambda>(k, f). re_match_manifest k \<and> k \<in> set old) info)))"
proof (induction info arbitrary: acc)
  case Nil
  then show ?case by simp
next
  case (Cons a info)
  obtain k f where a: "a = (k, f)" by (cases a)
  show ?case
  proof (cases "n \<le> int (length acc)")
    case True
    then show ?thesis by (simp add: a)
  next
    case False
    then have pos: "0 < nat n - length acc" by linarith
    show ?thesis
    proof (cases "re_match_manifest k \<and> k \<in> set old")
      case True
      from pos obtain d where d: "nat n - length acc = Suc d"
        by (cases "nat n - length acc") auto
      then have d': "nat n - Suc (length acc) = d" by simp
      have "n \<le> 1 + int (length acc) \<longleftrightarrow> d = 0" using d False by linarith
      with True False d d' Cons.IH[of "acc @ [f]"] show ?thesis
        by (simp add: a searchList_None)
    next
      case no: False
      with False Cons.IH[of acc] show ?thesis by (auto simp: a searchList_None)
    qed
  qed
qed

lemma wf_candidates:
  "inventory_wf info \<Longrightarrow>
     map snd (filter (\<lambda>(k, f). re_match_manifest k \<and> k \<in> set old) info)
       = manifest_candidates info old"
  by (induction info) (auto simp: inventory_wf_def manifest_candidates_def)

lemma sorted_candidates:
  assumes "newest_first info"
  shows "sort_key (\<lambda>f. - modified f) (manifest_candidates info old)
           = manifest_candidates info old"
proof -
  from assms have "sorted (map (\<lambda>f. - modified f) (map snd info))"
    by (simp add: newest_first_def sorted_map sorted_wrt_map o_def)
  then have "sorted (map (\<lambda>f. - modified f) (manifest_candidates info old))"
    unfolding manifest_candidates_def by (rule sorted_filter)
  then show ?thesis by (rule sort_key_id_if_sorted)
qed

text \<open>On an inventory ordered newest first the loop selects what section 4.4 asks for.\<close>

lemma select_manifests_newest:
  assumes "inventory_wf info" and "newest_first info"
  shows "select_manifests info old n [] = newest_manifests n info old"
  by (simp add: select_manifests_eq wf_candidates[OF assms(1)] newest_manifests_def
        sorted_candidates[OF assms(2)])

lemma collect_exclude_set:
  "collect_exclude e b p ms acc = Inr ex \<Longrightarrow> set ex = set acc \<union> exclusion_set e b p ms"
proof (induction ms arbitrary: acc)
  case Nil
  then show ?case by (simp add: exclusion_set_def)
next
  case (Cons m ms)
  from Cons.prems obtain body where
    body: "get_object e b (p @ ''/'' @ key m) = Inr body"
    and rest: "collect_exclude e b p ms ((acc @ [key m]) @ findall_url (str_of_bytes body)) = Inr ex"
    by (auto split: sum.splits)
  from Cons.IH[OF rest] body show ?case
    by (auto simp: exclusion_set_def extracted_paths_def)
qed

lemma collect_exclude_returns:
  "\<forall>m \<in> set ms. \<exists>body. get_object e b (p @ ''/'' @ key m) = Inr body \<Longrightarrow>
     \<exists>ex. collect_exclude e b p ms acc = Inr ex"
  by (induction ms arbitrary: acc) auto

lemma maintainVersions_set:
  assumes "maintainVersions e info old n b p = Inr kept"
  shows "set kept = set old - exclusion_set e b p (select_manifests info old n [])"
proof -
  from assms obtain ex where
    ex: "collect_exclude e b p (select_manifests info old n []) [] = Inr ex"
    and kept: "kept = set_minus old ex"
    by (auto simp: maintainVersions_def split: sum.splits)
  from collect_exclude_set[OF ex] kept show ?thesis by (simp add: set_set_minus)
qed

text \<open>The retention step returns whenever every selected manifest can be fetched.\<close>

lemma maintainVersions_returns:
  assumes "\<forall>m \<in> set (select_manifests info old n []).
             \<exists>body. get_object e b (p @ ''/'' @ key m) = Inr body"
  shows "\<exists>kept. maintainVersions e info old n b p = Inr kept"
  using collect_exclude_returns[OF assms, of "[]"] by (auto simp: maintainVersions_def)

lemma demo_inventory_wf: "inventory_wf demo_inventory"
  by (simp add: inventory_wf_def demo_inventory_def demo_file_def)

lemma demo_newest_first: "newest_first demo_inventory"
  by (simp add: newest_first_def demo_inventory_def demo_file_def)

lemma demo_findall_url:
  "findall_url (str_of_bytes (demo_manifest ''static/app.2.js'')) = [''static/app.2.js'']"
  by code_simp

lemma demo_maintainVersions:
  "maintainVersions demo_env demo_inventory demo_old 1 ''bucket'' demo_prefix
     = Inr [''precache-manifest.1.js'', ''static/app.1.js'']"
proof -
  have sel: "select_manifests demo_inventory demo_old 1 []
               = [snd (demo_file ''precache-manifest.2.js''
                         (demo_manifest ''static/app.2.js'') 200)]"
    by (simp add: demo_inventory_def demo_file_def demo_old_def re_match_manifest_def)
  have obj: "get_object demo_env ''bucket'' (demo_prefix @ ''/precache-manifest.2.js'')
             = Inr (demo_manifest ''static/app.2.js'')"
    by (simp add: demo_env_def demo_prefix_def)
  show ?thesis
    unfolding maintainVersions_def sel
    by (simp add: demo_file_def obj demo_findall_url set_minus_def demo_old_def)
qed

text \<open>On an inventory whose records carry their keys and are ordered newest first,
  whatever \<open>maintainVersions\<close> returns is the set of deletion candidates minus the keys of
  the \<open>iVersions\<close> newest manifests that are deletion candidates and minus the paths it
  extracted from them.\<close>

lemma maintainVersions_exclusion:
  assumes "inventory_wf aS3FileInfo"
    and "newest_first aS3FileInfo"
    and "maintainVersions e aS3FileInfo aOldS3Files iVers sBucket sPrefix = Inr kept"
  shows "set kept = set aOldS3Files
           - exclusion_set e sBucket sPrefix (newest_manifests iVers aS3FileInfo aOldS3Files)"
  using maintainVersions_set[OF assms(3)] select_manifests_newest[OF assms(1,2)] by simp

lemma demo_maintainVersions_exclusion:
  "set [''precache-manifest.1.js'', ''static/app.1.js''] = set demo_old
     - exclusion_set demo_env ''bucket'' demo_prefix (newest_manifests 1 demo_inventory demo_old)"
  using maintainVersions_exclusion[OF demo_inventory_wf demo_newest_first demo_maintainVersions] .

subsection \<open>Manifests of plain content\<close>

lemma repr_byte_plain:
  "c \<noteq> squote \<Longrightarrow> c \<noteq> backslash \<Longrightarrow> 32 \<le> (of_char c :: nat) \<Longrightarrow> (of_char c :: nat) < 127
     \<Longrightarrow> repr_byte squote c = [c]"
  by (auto simp: repr_byte_def newline_def)

lemma concat_repr_plain: "plain_bytes b \<Longrightarrow> concat (map (repr_byte squote) b) = b"
  by (induction b) (simp_all add: plain_bytes_def repr_byte_plain)

lemma str_of_bytes_plain:
  assumes "plain_bytes b"
  shows "str_of_bytes b = CHR ''b'' # squote # b @ [squote]"
proof -
  from assms have "squote \<notin> set b" by (auto simp: plain_bytes_def list_all_iff)
  with concat_repr_plain[OF assms] show ?thesis by (simp add: str_of_bytes_def)
qed

lemma findall_url_Nil: "findall_url [] = []"
  by (subst findall_url.simps) simp

lemma findall_url_no:
  "s \<noteq> [] \<Longrightarrow> \<not> prefix url_marker s \<Longrightarrow> findall_url s = findall_url (tl s)"
  by (subst findall_url.simps) simp

lemma findall_url_hit:
  assumes "prefix url_marker s"
    and "length (takeWhile (\<lambda>c. c \<noteq> dquote) (drop (length url_marker) s))
           < length (drop (length url_marker) s)"
    and "newline \<notin> set (takeWhile (\<lambda>c. c \<noteq> dquote) (drop (length url_marker) s))"
  shows "findall_url s =
           takeWhile (\<lambda>c. c \<noteq> dquote) (drop (length url_marker) s)
             # findall_url (drop (Suc (length (takeWhile (\<lambda>c. c \<noteq> dquote)
                                               (drop (length url_marker) s))))
                              (drop (length url_marker) s))"
proof -
  from assms(2) have "s \<noteq> []" by auto
  with assms show ?thesis
    by (subst findall_url.simps) (simp only: Let_def if_True if_False simp_thms)
qed

lemma findall_url_miss:
  assumes "prefix url_marker s"
    and "\<not> (length (takeWhile (\<lambda>c. c \<noteq> dquote) (drop (length url_marker) s))
             < length (drop (length url_marker) s)
           \<and> newline \<notin> set (takeWhile (\<lambda>c. c \<noteq> dquote) (drop (length url_marker) s)))"
  shows "findall_url s = findall_url (tl s)"
proof -
  from assms(1) have "s \<noteq> []" by (auto simp: url_marker_def)
  with assms show ?thesis
    by (subst findall_url.simps) (simp only: Let_def if_True if_False simp_thms)
qed

lemma findall_url_skip: "c \<noteq> dquote \<Longrightarrow> findall_url (c # s) = findall_url s"
  using findall_url_no[of "c # s"] by (simp add: url_marker_def)

lemma prefix_marker_snoc: "prefix url_marker (s @ [squote]) \<longleftrightarrow> prefix url_marker s"
  by (auto simp: prefix_snoc url_marker_def squote_def dquote_def)

lemma takeWhile_short: "length (takeWhile P xs) < length xs \<longleftrightarrow> (\<exists>x \<in> set xs. \<not> P x)"
  by (induction xs) auto

lemma takeWhile_snoc_quote:
  "takeWhile (\<lambda>c. c \<noteq> dquote) (rest @ [squote]) =
     (if \<forall>c \<in> set rest. c \<noteq> dquote then rest @ [squote]
      else takeWhile (\<lambda>c. c \<noteq> dquote) rest)"
  by (auto simp: takeWhile_append squote_def dquote_def)

lemma findall_url_snoc: "findall_url (s @ [squote]) = findall_url s"
proof (induction s rule: length_induct)
  case (1 s)
  show ?case
  proof (cases "s = []")
    case True
    have "squote \<noteq> dquote" by (simp add: squote_def dquote_def)
    from findall_url_skip[OF this, of "[]"] True show ?thesis by simp
  next
    case ne: False
    then have "length (tl s) < length s" by simp
    with 1 have ih_tl: "findall_url (tl s @ [squote]) = findall_url (tl s)" by blast
    from ne have tl_snoc: "tl (s @ [squote]) = tl s @ [squote]" by simp
    have ne': "s @ [squote] \<noteq> []" by simp
    show ?thesis
    proof (cases "prefix url_marker s")
      case False
      then have "\<not> prefix url_marker (s @ [squote])"
        using prefix_marker_snoc[of s] by blast
      from findall_url_no[OF ne' this] findall_url_no[OF ne False] ih_tl tl_snoc
      show ?thesis by simp
    next
      case True
      then have pre': "prefix url_marker (s @ [squote])"
        using prefix_marker_snoc[of s] by blast
      define rest where "rest = drop (length url_marker) s"
      from True have "length url_marker \<le> length s" by (rule prefix_length_le)
      then have rest': "drop (length url_marker) (s @ [squote]) = rest @ [squote]"
        by (simp add: rest_def)
      show ?thesis
      proof (cases "\<forall>c \<in> set rest. c \<noteq> dquote")
        case all: True
        then have "\<not> length (takeWhile (\<lambda>c. c \<noteq> dquote) rest) < length rest"
          by (simp add: takeWhile_short)
        then have a: "findall_url s = findall_url (tl s)"
          using findall_url_miss[OF True] by (simp add: rest_def)
        have "takeWhile (\<lambda>c. c \<noteq> dquote) (rest @ [squote]) = rest @ [squote]"
          unfolding takeWhile_snoc_quote using all by simp
        then have "\<not> length (takeWhile (\<lambda>c. c \<noteq> dquote) (rest @ [squote]))
                     < length (rest @ [squote])" by simp
        then have "findall_url (s @ [squote]) = findall_url (tl (s @ [squote]))"
          using findall_url_miss[OF pre'] by (simp only: rest' simp_thms)
        with a ih_tl tl_snoc show ?thesis by simp
      next
        case some: False
        define sUrl where "sUrl = takeWhile (\<lambda>c. c \<noteq> dquote) rest"
        have tw: "takeWhile (\<lambda>c. c \<noteq> dquote) (rest @ [squote]) = sUrl"
          unfolding takeWhile_snoc_quote sUrl_def using some by auto
        from some have short: "length sUrl < length rest"
          unfolding sUrl_def by (simp add: takeWhile_short)
        show ?thesis
        proof (cases "newline \<in> set sUrl")
          case True
          with findall_url_miss[OF \<open>prefix url_marker s\<close>]
          have a: "findall_url s = findall_url (tl s)"
            by (simp add: rest_def sUrl_def)
          from True findall_url_miss[OF pre']
          have "findall_url (s @ [squote]) = findall_url (tl (s @ [squote]))"
            by (simp only: rest' tw simp_thms)
          with a ih_tl tl_snoc show ?thesis by simp
        next
          case False
          from findall_url_hit[OF \<open>prefix url_marker s\<close>] short False
          have a: "findall_url s = sUrl # findall_url (drop (Suc (length sUrl)) rest)"
            by (simp add: rest_def sUrl_def)
          from short have dr: "drop (Suc (length sUrl)) (rest @ [squote])
                                 = drop (Suc (length sUrl)) rest @ [squote]" by simp
          from short have "length sUrl < length (rest @ [squote])" by simp
          with findall_url_hit[OF pre'] False
          have b: "findall_url (s @ [squote])
                     = sUrl # findall_url (drop (Suc (length sUrl)) rest @ [squote])"
            by (simp only: rest' tw dr simp_thms)
          have "length (drop (Suc (length sUrl)) rest) < length s"
            using ne by (simp add: rest_def)
          with 1 have "findall_url (drop (Suc (length sUrl)) rest @ [squote])
                         = findall_url (drop (Suc (length sUrl)) rest)" by blast
          with a b show ?thesis by simp
        qed
      qed
    qed
  qed
qed

lemma findall_url_plain:
  assumes "plain_bytes b"
  shows "findall_url (str_of_bytes b) = findall_url b"
proof -
  have f1: "CHR ''b'' \<noteq> dquote" and f2: "squote \<noteq> dquote"
    by (simp_all add: squote_def dquote_def)
  have "findall_url (str_of_bytes b) = findall_url (CHR ''b'' # squote # b @ [squote])"
    by (simp only: str_of_bytes_plain[OF assms])
  also have "\<dots> = findall_url (b @ [squote])"
    by (simp only: findall_url_skip[OF f1] findall_url_skip[OF f2])
  also have "\<dots> = findall_url b" by (rule findall_url_snoc)
  finally show ?thesis .
qed

text \<open>When the content of every selected manifest is plain, the paths extracted are the
  paths referred to, and the result is the set of deletion candidates minus the exclusion
  set of section 4.4.\<close>

lemma extracted_paths_plain:
  assumes "\<forall>body. get_object e b (p @ ''/'' @ key m) = Inr body \<longrightarrow> plain_bytes body"
  shows "extracted_paths e b p m = referenced_paths e b p m"
  using assms
  by (auto simp: extracted_paths_def referenced_paths_def findall_url_plain split: sum.splits)

lemma maintainVersions_protects_plain:
  assumes "inventory_wf aS3FileInfo"
    and "newest_first aS3FileInfo"
    and "maintainVersions e aS3FileInfo aOldS3Files iVers sBucket sPrefix = Inr kept"
    and "\<forall>oFile \<in> set (newest_manifests iVers aS3FileInfo aOldS3Files).
           \<forall>body. get_object e sBucket (sPrefix @ ''/'' @ key oFile) = Inr body
             \<longrightarrow> plain_bytes body"
  shows "set kept = set aOldS3Files
           - spec_exclusion_set e sBucket sPrefix
               (newest_manifests iVers aS3FileInfo aOldS3Files)"
proof -
  from assms(4)
  have "exclusion_set e sBucket sPrefix (newest_manifests iVers aS3FileInfo aOldS3Files)
          = spec_exclusion_set e sBucket sPrefix
              (newest_manifests iVers aS3FileInfo aOldS3Files)"
    by (simp add: exclusion_set_def spec_exclusion_set_def extracted_paths_plain)
  with maintainVersions_exclusion[OF assms(1-3)] show ?thesis by simp
qed

subsection \<open>A manifest that refers to a path with an apostrophe\<close>

lemma demo_quote_referenced: "findall_url (demo_manifest demo_quote_path) = [demo_quote_path]"
  by code_simp

lemma demo_quote_extracted:
  "findall_url (str_of_bytes (demo_manifest demo_quote_path))
     = [''static/it'' @ [backslash, squote] @ ''s.js'']"
  by code_simp

lemma demo_quote_object:
  "get_object demo_quote_env ''bucket'' (demo_prefix @ ''/precache-manifest.2.js'')
     = Inr (demo_manifest demo_quote_path)"
  by (simp add: demo_quote_env_def)

text \<open>Claim C1: the set that \<open>maintainVersions\<close> returns holds no key of the
  \<open>iVersions\<close> newest manifests among the deletion candidates and no path such a manifest
  refers to.  The code breaks it here: the newest manifest among the candidates refers to
  \<open>static/it's.js\<close>, which is a candidate too, and one version is to be kept.
  \<open>maintainVersions\<close> removes the manifest's key but returns the path the manifest refers
  to, since in \<open>str\<close> of the content the apostrophe is written with a backslash and the
  entry extracted is not the key.\<close>

theorem maintainVersions_escaped_path:
  "newest_manifests 1 demo_quote_inventory demo_quote_old
     = [snd (demo_file ''precache-manifest.2.js'' (demo_manifest demo_quote_path) 200)]
   \<and> referenced_paths demo_quote_env ''bucket'' demo_prefix
        (snd (demo_file ''precache-manifest.2.js'' (demo_manifest demo_quote_path) 200))
       = [demo_quote_path]
   \<and> demo_quote_path \<in> set demo_quote_old
   \<and> maintainVersions demo_quote_env demo_quote_inventory demo_quote_old 1 ''bucket''
        demo_prefix = Inr [demo_quote_path]"
proof -
  have new: "newest_manifests 1 demo_quote_inventory demo_quote_old
     = [snd (demo_file ''precache-manifest.2.js'' (demo_manifest demo_quote_path) 200)]"
    by (simp add: newest_manifests_def manifest_candidates_def demo_quote_inventory_def
          demo_quote_old_def demo_file_def re_match_manifest_def demo_quote_path_def)
  have ref: "referenced_paths demo_quote_env ''bucket'' demo_prefix
        (snd (demo_file ''precache-manifest.2.js'' (demo_manifest demo_quote_path) 200))
       = [demo_quote_path]"
    by (simp add: referenced_paths_def demo_file_def demo_quote_object demo_quote_referenced)
  have cand: "demo_quote_path \<in> set demo_quote_old" by (simp add: demo_quote_old_def)
  have sel: "select_manifests demo_quote_inventory demo_quote_old 1 []
     = [snd (demo_file ''precache-manifest.2.js'' (demo_manifest demo_quote_path) 200)]"
    by (simp add: demo_quote_inventory_def demo_quote_old_def demo_file_def
          re_match_manifest_def demo_quote_path_def)
  have run: "maintainVersions demo_quote_env demo_quote_inventory demo_quote_old 1 ''bucket''
        demo_prefix = Inr [demo_quote_path]"
    unfolding maintainVersions_def sel
    by (simp add: demo_file_def demo_quote_object demo_quote_extracted set_minus_def
          demo_quote_old_def)
       (simp add: demo_quote_path_def squote_def backslash_def)
  from new ref cand run show ?thesis by simp
qed

section \<open>Uploads, removals and the whole run\<close>

lemma sCacheAlways_eq: "sCacheAlways = ''max-age=7776000, public''"
  by (simp add: sCacheAlways_def CACHE_SECONDS_def format_d.simps[of 7776000]
        format_d.simps[of 777600] format_d.simps[of 77760] format_d.simps[of 7776]
        format_d.simps[of 777] format_d.simps[of 77] format_d.simps[of 7])

lemma cache_control_eq:
  "(if searchList sFile NO_CACHE_FILES = None then sCacheAlways else sCacheNever)
     = spec_cache_control sFile"
  by (auto simp: searchList_None NO_CACHE_FILES_def sCacheAlways_eq sCacheNever_def
        spec_cache_control_def)

text \<open>Every event of \<open>transferFiles\<close> is a printed line or, outside a dry run, the upload
  of one of the files with the cache policy chosen for it.\<close>

lemma transferFiles_events:
  "ev \<in> set (fst (transferFiles opts e b p files)) \<Longrightarrow>
     (\<exists>line. ev = Print line)
     \<or> (\<not> bDryRun opts \<and> (\<exists>f \<in> set files. \<exists>data. read_file e f = Some data
           \<and> ev = PutObject \<lparr>Body = data, Bucket = b,
                    CacheControl = (if searchList f NO_CACHE_FILES = None
                                    then sCacheAlways else sCacheNever),
                    ContentType = guess_type e f, put_Key = p @ ''/'' @ f\<rparr>))"
proof (induction files)
  case Nil
  then show ?case by simp
next
  case (Cons f files)
  then show ?case
    by (auto simp: Let_def split: if_splits option.splits prod.splits)
qed

lemma transferFiles_uploads_all:
  "\<not> bDryRun opts \<Longrightarrow> snd (transferFiles opts e b p files) = None \<Longrightarrow> f \<in> set files \<Longrightarrow>
     \<exists>data. read_file e f = Some data
       \<and> PutObject \<lparr>Body = data, Bucket = b,
            CacheControl = (if searchList f NO_CACHE_FILES = None
                            then sCacheAlways else sCacheNever),
            ContentType = guess_type e f, put_Key = p @ ''/'' @ f\<rparr>
          \<in> set (fst (transferFiles opts e b p files))"
proof (induction files)
  case Nil
  then show ?case by simp
next
  case (Cons g files)
  then show ?case
    by (auto simp: Let_def split: if_splits option.splits prod.splits)
qed

lemma removeS3Files_events:
  "ev \<in> set (fst (removeS3Files opts e b p files)) \<Longrightarrow>
     (\<exists>line. ev = Print line)
     \<or> (\<not> bDryRun opts \<and> (\<exists>f \<in> set files. ev = DeleteObject b (p @ ''/'' @ f)))"
proof (induction files)
  case Nil
  then show ?case by simp
next
  case (Cons f files)
  then show ?case
    by (auto simp: Let_def split: if_splits option.splits prod.splits)
qed

lemma clearCloudFront_dry: "bDryRun opts \<Longrightarrow> clearCloudFront opts e = ([], None)"
  by (simp add: clearCloudFront_def)

lemma syncToS3_events:
  assumes "ev \<in> set (fst (syncToS3 opts e))"
  shows "\<exists>new old. syncToS3_lists opts e = Inr (new, old)
           \<and> (ev \<in> set (fst (transferFiles opts e (S3_BUCKET e)
                   (''deployments/'' @ sProduct opts @ ''/'' @ sDeployment opts) new))
              \<or> ev \<in> set (fst (removeS3Files opts e (S3_BUCKET e)
                   (''deployments/'' @ sProduct opts @ ''/'' @ sDeployment opts) old)))"
  using assms
  by (auto simp: syncToS3_def Let_def split: if_splits sum.splits prod.splits option.splits)

lemma main_events:
  assumes "ev \<in> set (fst (main opts e))"
  shows "ev \<in> set (fst (syncToS3 opts e)) \<or> ev \<in> set (fst (clearCloudFront opts e))"
  using assms by (auto simp: main_def split: prod.splits option.splits)

text \<open>The dry-run flag is read by the uploads, the removals and the invalidation only.\<close>

lemma compare_common_dry:
  "compare_common (opts\<lparr>bDryRun := d\<rparr>) e info xs acc = compare_common opts e info xs acc"
  by (induction xs arbitrary: acc) (auto split: option.splits sum.splits)

lemma compareFiles_dry:
  "compareFiles (opts\<lparr>bDryRun := d\<rparr>) e aBuildFiles info = compareFiles opts e aBuildFiles info"
  by (simp add: compareFiles_def compare_common_dry)

lemma syncToS3_lists_dry:
  "syncToS3_lists (opts\<lparr>bDryRun := d\<rparr>) e = syncToS3_lists opts e"
  by (auto simp: syncToS3_lists_def compareFiles_dry Let_def split: sum.splits option.splits)

lemma syncToS3_lists_unfold:
  assumes "getS3Files e (S3_BUCKET e)
             (''deployments/'' @ sProduct opts @ ''/'' @ sDeployment opts) = Inr info"
    and "compareFiles opts e (getCwdFiles e) info = Inr (new, old)"
  shows "syncToS3_lists opts e =
           (case iVersions opts of
              None \<Rightarrow> Inr (new, old)
            | Some n \<Rightarrow>
                if 0 < n then
                  (case maintainVersions e info old n (S3_BUCKET e)
                          (''deployments/'' @ sProduct opts @ ''/'' @ sDeployment opts) of
                     Inl err \<Rightarrow> Inl err
                   | Inr old' \<Rightarrow> Inr (new, old'))
                else Inr (new, old))"
  using assms by (auto simp: syncToS3_lists_def split: option.splits sum.splits)

lemma maintainVersions_subset:
  "maintainVersions e info old n b p = Inr kept \<Longrightarrow> set kept \<subseteq> set old"
  by (auto simp: maintainVersions_def set_set_minus split: sum.splits)

lemma demo_getS3Files:
  "getS3Files demo_env (S3_BUCKET demo_env)
     (''deployments/'' @ sProduct demo_opts @ ''/'' @ sDeployment demo_opts) = Inr demo_inventory"
  by code_simp

lemma demo_bucket: "S3_BUCKET demo_env = ''bucket''"
  by (simp add: demo_env_def)

lemma demo_prefix_eq:
  "''deployments/'' @ sProduct demo_opts @ ''/'' @ sDeployment demo_opts = demo_prefix"
  by (simp add: demo_opts_def demo_prefix_def)

lemma demo_syncToS3_lists:
  "syncToS3_lists demo_opts demo_env =
     Inr ([''asset-manifest.json'', ''precache-manifest.3.js'', ''static/app.3.js'',
           ''index.html''],
          [''precache-manifest.1.js'', ''static/app.1.js''])"
proof -
  have f: "\<not> bForceTransfer demo_opts" by (simp add: demo_opts_def)
  have v: "iVersions demo_opts = Some 1" by (simp add: demo_opts_def)
  show ?thesis
    unfolding syncToS3_lists_unfold[OF demo_getS3Files demo_compareFiles_any[OF f]]
      v demo_bucket demo_prefix_eq
    by (simp add: demo_maintainVersions)
qed

lemma demo_main_dry:
  "main (demo_opts\<lparr>bDryRun := True\<rparr>) demo_env =
     ([Print '' - transfering to s3://bucket/deployments/app/live/asset-manifest.json'',
       Print '' - transfering to s3://bucket/deployments/app/live/precache-manifest.3.js'',
       Print '' - transfering to s3://bucket/deployments/app/live/static/app.3.js'',
       Print '' - transfering to s3://bucket/deployments/app/live/index.html'',
       Print '' - removing s3://bucket/deployments/app/live/precache-manifest.1.js'',
       Print '' - removing s3://bucket/deployments/app/live/static/app.1.js''], None)"
  unfolding main_def syncToS3_def syncToS3_lists_dry demo_syncToS3_lists
  by (simp add: clearCloudFront_def demo_opts_def demo_bucket)

text \<open>Claim C6.  When the version count is absent or \<open>0\<close>, the two lists of \<open>syncToS3\<close>
  are exactly those of \<open>compareFiles\<close>, and \<open>removeS3Files\<close> is run on the unchanged list of
  old files.\<close>

theorem zero_versions_keeps_candidates:
  assumes "iVersions opts = None \<or> iVersions opts = Some 0"
    and "getS3Files e (S3_BUCKET e)
           (''deployments/'' @ sProduct opts @ ''/'' @ sDeployment opts) = Inr aS3FileInfo"
    and "compareFiles opts e (getCwdFiles e) aS3FileInfo = Inr (aNewBuildFiles, aOldS3Files)"
  shows "syncToS3_lists opts e = Inr (aNewBuildFiles, aOldS3Files)
       \<and> (\<not> bInvalidCFOnly opts \<longrightarrow>
            syncToS3 opts e =
              (case transferFiles opts e (S3_BUCKET e)
                      (''deployments/'' @ sProduct opts @ ''/'' @ sDeployment opts)
                      aNewBuildFiles of
                 (evs, Some err) \<Rightarrow> (evs, Some err)
               | (evs, None) \<Rightarrow>
                   (let (evs', r) = removeS3Files opts e (S3_BUCKET e)
                          (''deployments/'' @ sProduct opts @ ''/'' @ sDeployment opts)
                          aOldS3Files
                    in (evs @ evs', r))))"
proof -
  from assms(1) syncToS3_lists_unfold[OF assms(2,3)]
  have "syncToS3_lists opts e = Inr (aNewBuildFiles, aOldS3Files)" by auto
  then show ?thesis
    by (auto simp: syncToS3_def Let_def split: prod.splits option.splits)
qed

theorem zero_versions_keeps_candidates_witness:
  "(iVersions (demo_opts\<lparr>iVersions := Some 0\<rparr>) = None
      \<or> iVersions (demo_opts\<lparr>iVersions := Some 0\<rparr>) = Some 0)
   \<and> (iVersions (demo_opts\<lparr>iVersions := None\<rparr>) = None
      \<or> iVersions (demo_opts\<lparr>iVersions := None\<rparr>) = Some 0)
   \<and> syncToS3_lists (demo_opts\<lparr>iVersions := Some 0\<rparr>) demo_env =
       Inr ([''asset-manifest.json'', ''precache-manifest.3.js'', ''static/app.3.js'',
             ''index.html''], demo_old)
   \<and> syncToS3_lists (demo_opts\<lparr>iVersions := None\<rparr>) demo_env =
       Inr ([''asset-manifest.json'', ''precache-manifest.3.js'', ''static/app.3.js'',
             ''index.html''], demo_old)"
proof -
  have v0: "iVersions (demo_opts\<lparr>iVersions := Some 0\<rparr>) = None
              \<or> iVersions (demo_opts\<lparr>iVersions := Some 0\<rparr>) = Some 0" by simp
  have vn: "iVersions (demo_opts\<lparr>iVersions := None\<rparr>) = None
              \<or> iVersions (demo_opts\<lparr>iVersions := None\<rparr>) = Some 0" by simp
  have g0: "getS3Files demo_env (S3_BUCKET demo_env)
              (''deployments/'' @ sProduct (demo_opts\<lparr>iVersions := Some 0\<rparr>) @ ''/''
                 @ sDeployment (demo_opts\<lparr>iVersions := Some 0\<rparr>)) = Inr demo_inventory"
    using demo_getS3Files by simp
  have gn: "getS3Files demo_env (S3_BUCKET demo_env)
              (''deployments/'' @ sProduct (demo_opts\<lparr>iVersions := None\<rparr>) @ ''/''
                 @ sDeployment (demo_opts\<lparr>iVersions := None\<rparr>)) = Inr demo_inventory"
    using demo_getS3Files by simp
  have c0: "compareFiles (demo_opts\<lparr>iVersions := Some 0\<rparr>) demo_env (getCwdFiles demo_env)
              demo_inventory =
            Inr ([''asset-manifest.json'', ''precache-manifest.3.js'', ''static/app.3.js'',
                  ''index.html''], demo_old)"
    by (rule demo_compareFiles_any) (simp add: demo_opts_def)
  have cn: "compareFiles (demo_opts\<lparr>iVersions := None\<rparr>) demo_env (getCwdFiles demo_env)
              demo_inventory =
            Inr ([''asset-manifest.json'', ''precache-manifest.3.js'', ''static/app.3.js'',
                  ''index.html''], demo_old)"
    by (rule demo_compareFiles_any) (simp add: demo_opts_def)
  from zero_versions_keeps_candidates[OF v0 g0 c0] zero_versions_keeps_candidates[OF vn gn cn]
    v0 vn
  show ?thesis by blast
qed

text \<open>Claim C7.  In a dry run every event of the run is a printed line: nothing is put,
  nothing is deleted and no invalidation is created; and the two lists that \<open>syncToS3\<close>
  computes are those it computes from the same inputs without the dry-run flag.\<close>

theorem dry_run_no_side_effects:
  assumes "bDryRun opts"
  shows "(\<forall>ev \<in> set (fst (main opts e)).
            (\<forall>req. ev \<noteq> PutObject req) \<and> (\<forall>b k. ev \<noteq> DeleteObject b k)
            \<and> (\<forall>d ps r. ev \<noteq> CreateInvalidation d ps r))
       \<and> syncToS3_lists opts e = syncToS3_lists (opts\<lparr>bDryRun := False\<rparr>) e"
proof -
  have "\<exists>line. ev = Print line" if "ev \<in> set (fst (main opts e))" for ev
  proof -
    from main_events[OF that] assms have "ev \<in> set (fst (syncToS3 opts e))"
      by (simp add: clearCloudFront_dry)
    from syncToS3_events[OF this] assms show ?thesis
      using transferFiles_events removeS3Files_events by blast
  qed
  then show ?thesis by (auto simp: syncToS3_lists_dry)
qed

theorem dry_run_no_side_effects_witness:
  "bDryRun (demo_opts\<lparr>bDryRun := True\<rparr>)
   \<and> fst (main (demo_opts\<lparr>bDryRun := True\<rparr>) demo_env) =
       [Print '' - transfering to s3://bucket/deployments/app/live/asset-manifest.json'',
        Print '' - transfering to s3://bucket/deployments/app/live/precache-manifest.3.js'',
        Print '' - transfering to s3://bucket/deployments/app/live/static/app.3.js'',
        Print '' - transfering to s3://bucket/deployments/app/live/index.html'',
        Print '' - removing s3://bucket/deployments/app/live/precache-manifest.1.js'',
        Print '' - removing s3://bucket/deployments/app/live/static/app.1.js'']
   \<and> \<not> (\<exists>ev \<in> set (fst (main (demo_opts\<lparr>bDryRun := True\<rparr>) demo_env)).
          (\<exists>req. ev = PutObject req) \<or> (\<exists>b k. ev = DeleteObject b k)
          \<or> (\<exists>d ps r. ev = CreateInvalidation d ps r))
   \<and> syncToS3_lists (demo_opts\<lparr>bDryRun := True\<rparr>) demo_env
       = syncToS3_lists (demo_opts\<lparr>bDryRun := True, bDryRun := False\<rparr>) demo_env"
proof -
  have h: "bDryRun (demo_opts\<lparr>bDryRun := True\<rparr>)" by simp
  have m: "fst (main (demo_opts\<lparr>bDryRun := True\<rparr>) demo_env) =
       [Print '' - transfering to s3://bucket/deployments/app/live/asset-manifest.json'',
        Print '' - transfering to s3://bucket/deployments/app/live/precache-manifest.3.js'',
        Print '' - transfering to s3://bucket/deployments/app/live/static/app.3.js'',
        Print '' - transfering to s3://bucket/deployments/app/live/index.html'',
        Print '' - removing s3://bucket/deployments/app/live/precache-manifest.1.js'',
        Print '' - removing s3://bucket/deployments/app/live/static/app.1.js'']"
    by (simp only: demo_main_dry fst_conv)
  from dry_run_no_side_effects[OF h, of demo_env] h m show ?thesis by blast
qed

text \<open>Claim C8.  Every upload that \<open>transferFiles\<close> makes is the upload of one of its
  files, with the no-cache policy when that file is \<open>index.html\<close> or
  \<open>asset-manifest.json\<close> and with the 90-day public policy otherwise; and when a run that
  is not a dry run completes, every file has been uploaded so.\<close>

theorem transferFiles_cache_control:
  "(PutObject req \<in> set (fst (transferFiles opts e sBucket sPrefix aFiles)) \<longrightarrow>
      (\<exists>sFile \<in> set aFiles. put_Key req = sPrefix @ ''/'' @ sFile
         \<and> CacheControl req = spec_cache_control sFile))
   \<and> (\<not> bDryRun opts \<and> snd (transferFiles opts e sBucket sPrefix aFiles) = None
        \<and> sFile' \<in> set aFiles \<longrightarrow>
      (\<exists>req'. PutObject req' \<in> set (fst (transferFiles opts e sBucket sPrefix aFiles))
         \<and> put_Key req' = sPrefix @ ''/'' @ sFile'
         \<and> CacheControl req' = spec_cache_control sFile'))"
proof (intro conjI impI)
  assume "PutObject req \<in> set (fst (transferFiles opts e sBucket sPrefix aFiles))"
  from transferFiles_events[OF this]
  show "\<exists>sFile \<in> set aFiles. put_Key req = sPrefix @ ''/'' @ sFile
          \<and> CacheControl req = spec_cache_control sFile"
    by (auto simp: cache_control_eq)
next
  assume a: "\<not> bDryRun opts \<and> snd (transferFiles opts e sBucket sPrefix aFiles) = None
               \<and> sFile' \<in> set aFiles"
  then obtain data where
    "PutObject \<lparr>Body = data, Bucket = sBucket, CacheControl = spec_cache_control sFile',
        ContentType = guess_type e sFile', put_Key = sPrefix @ ''/'' @ sFile'\<rparr>
       \<in> set (fst (transferFiles opts e sBucket sPrefix aFiles))"
    using transferFiles_uploads_all[of opts e sBucket sPrefix aFiles sFile']
    by (auto simp: cache_control_eq)
  then show "\<exists>req'. PutObject req' \<in> set (fst (transferFiles opts e sBucket sPrefix aFiles))
               \<and> put_Key req' = sPrefix @ ''/'' @ sFile'
               \<and> CacheControl req' = spec_cache_control sFile'"
    by force
qed

lemma demo_transferFiles:
  "transferFiles demo_opts demo_env ''bucket'' demo_prefix [''index.html'', ''static/app.3.js'']
     = ([Print '' - transfering to s3://bucket/deployments/app/live/index.html'',
         PutObject demo_put_index,
         Print '' - transfering to s3://bucket/deployments/app/live/static/app.3.js'',
         PutObject demo_put_app], None)"
  by (simp add: Let_def cache_control_eq spec_cache_control_def demo_put_index_def
        demo_put_app_def demo_defs)

theorem transferFiles_cache_control_witness:
  "PutObject demo_put_index
     \<in> set (fst (transferFiles demo_opts demo_env ''bucket'' demo_prefix
                   [''index.html'', ''static/app.3.js'']))
   \<and> \<not> bDryRun demo_opts
   \<and> snd (transferFiles demo_opts demo_env ''bucket'' demo_prefix
             [''index.html'', ''static/app.3.js'']) = None
   \<and> ''static/app.3.js'' \<in> set [''index.html'', ''static/app.3.js'']
   \<and> (\<exists>sFile \<in> set [''index.html'', ''static/app.3.js''].
         put_Key demo_put_index = demo_prefix @ ''/'' @ sFile
         \<and> CacheControl demo_put_index = spec_cache_control sFile)
   \<and> (\<exists>req'. PutObject req'
           \<in> set (fst (transferFiles demo_opts demo_env ''bucket'' demo_prefix
                         [''index.html'', ''static/app.3.js'']))
         \<and> put_Key req' = demo_prefix @ ''/'' @ ''static/app.3.js''
         \<and> CacheControl req' = spec_cache_control ''static/app.3.js'')"
proof -
  have h1: "PutObject demo_put_index
              \<in> set (fst (transferFiles demo_opts demo_env ''bucket'' demo_prefix
                            [''index.html'', ''static/app.3.js'']))"
    unfolding demo_transferFiles by simp
  have h2: "\<not> bDryRun demo_opts" by (simp add: demo_opts_def)
  have h3: "snd (transferFiles demo_opts demo_env ''bucket'' demo_prefix
                   [''index.html'', ''static/app.3.js'']) = None"
    unfolding demo_transferFiles by simp
  have h4: "''static/app.3.js'' \<in> set [''index.html'', ''static/app.3.js'']" by simp
  from transferFiles_cache_control[of demo_put_index demo_opts demo_env "''bucket''" demo_prefix
      "[''index.html'', ''static/app.3.js'']" "''static/app.3.js''"] h1 h2 h3 h4
  show ?thesis by blast
qed

lemma demo_findall_url1:
  "findall_url (str_of_bytes (demo_manifest ''static/app.1.js'')) = [''static/app.1.js'']"
  by code_simp

lemma demo_maintainVersions_all:
  "maintainVersions demo_env demo_inventory demo_old 5 ''bucket'' demo_prefix = Inr []"
proof -
  have sel: "select_manifests demo_inventory demo_old 5 []
               = [snd (demo_file ''precache-manifest.2.js''
                         (demo_manifest ''static/app.2.js'') 200),
                  snd (demo_file ''precache-manifest.1.js''
                         (demo_manifest ''static/app.1.js'') 100)]"
    by (simp add: demo_inventory_def demo_file_def demo_old_def re_match_manifest_def)
  have obj2: "get_object demo_env ''bucket'' (demo_prefix @ ''/precache-manifest.2.js'')
             = Inr (demo_manifest ''static/app.2.js'')"
    by (simp add: demo_env_def demo_prefix_def)
  have obj1: "get_object demo_env ''bucket'' (demo_prefix @ ''/precache-manifest.1.js'')
             = Inr (demo_manifest ''static/app.1.js'')"
    by (simp add: demo_env_def demo_prefix_def)
  show ?thesis
    unfolding maintainVersions_def sel
    by (simp add: demo_file_def obj1 obj2 demo_findall_url demo_findall_url1 set_minus_def
          demo_old_def)
qed

lemma demo_maintainVersions_negative:
  "maintainVersions demo_env demo_inventory demo_old (- 1) ''bucket'' demo_prefix
     = Inr demo_old"
  by (simp add: maintainVersions_def demo_inventory_def demo_file_def set_minus_def
        demo_old_def)

lemma demo_syncToS3_delete:
  "DeleteObject ''bucket'' ''deployments/app/live/static/app.1.js''
     \<in> set (fst (syncToS3 demo_opts demo_env))"
  unfolding syncToS3_def demo_syncToS3_lists
  by (simp add: Let_def cache_control_eq spec_cache_control_def demo_defs)

text \<open>Claim C10.  Whatever the version count, \<open>maintainVersions\<close> returns only deletion
  candidates; and in \<open>syncToS3\<close> the final list of old files, and every key that is
  deleted, comes from the list of old files that \<open>compareFiles\<close> returned.\<close>

theorem deletion_subset_of_candidates:
  "(maintainVersions e aS3FileInfo aOldS3Files iVers sBucket sPrefix = Inr kept
      \<longrightarrow> set kept \<subseteq> set aOldS3Files)
   \<and> (getS3Files e (S3_BUCKET e)
          (''deployments/'' @ sProduct opts @ ''/'' @ sDeployment opts) = Inr info
        \<and> compareFiles opts e (getCwdFiles e) info = Inr (new, old)
      \<longrightarrow> (\<forall>new' old'. syncToS3_lists opts e = Inr (new', old') \<longrightarrow> set old' \<subseteq> set old)
        \<and> (\<forall>b k. DeleteObject b k \<in> set (fst (syncToS3 opts e)) \<longrightarrow>
              (\<exists>f \<in> set old.
                 k = (''deployments/'' @ sProduct opts @ ''/'' @ sDeployment opts) @ ''/'' @ f)))"
proof (intro conjI impI)
  assume "maintainVersions e aS3FileInfo aOldS3Files iVers sBucket sPrefix = Inr kept"
  then show "set kept \<subseteq> set aOldS3Files" by (rule maintainVersions_subset)
next
  assume a: "getS3Files e (S3_BUCKET e)
               (''deployments/'' @ sProduct opts @ ''/'' @ sDeployment opts) = Inr info
             \<and> compareFiles opts e (getCwdFiles e) info = Inr (new, old)"
  then have unf: "syncToS3_lists opts e =
           (case iVersions opts of
              None \<Rightarrow> Inr (new, old)
            | Some n \<Rightarrow>
                if 0 < n then
                  (case maintainVersions e info old n (S3_BUCKET e)
                          (''deployments/'' @ sProduct opts @ ''/'' @ sDeployment opts) of
                     Inl err \<Rightarrow> Inl err
                   | Inr old' \<Rightarrow> Inr (new, old'))
                else Inr (new, old))"
    by (simp add: syncToS3_lists_unfold)
  show sub: "\<forall>new' old'. syncToS3_lists opts e = Inr (new', old') \<longrightarrow> set old' \<subseteq> set old"
    unfolding unf
    by (auto split: option.splits if_splits sum.splits dest: maintainVersions_subset)
  show "\<forall>b k. DeleteObject b k \<in> set (fst (syncToS3 opts e)) \<longrightarrow>
          (\<exists>f \<in> set old.
             k = (''deployments/'' @ sProduct opts @ ''/'' @ sDeployment opts) @ ''/'' @ f)"
  proof (intro allI impI)
    fix b k
    assume "DeleteObject b k \<in> set (fst (syncToS3 opts e))"
    from syncToS3_events[OF this] obtain new' old' where
      lists: "syncToS3_lists opts e = Inr (new', old')"
      and ev: "DeleteObject b k \<in> set (fst (transferFiles opts e (S3_BUCKET e)
                   (''deployments/'' @ sProduct opts @ ''/'' @ sDeployment opts) new'))
              \<or> DeleteObject b k \<in> set (fst (removeS3Files opts e (S3_BUCKET e)
                   (''deployments/'' @ sProduct opts @ ''/'' @ sDeployment opts) old'))"
      by blast
    from ev transferFiles_events[of "DeleteObject b k"]
    have "DeleteObject b k \<in> set (fst (removeS3Files opts e (S3_BUCKET e)
            (''deployments/'' @ sProduct opts @ ''/'' @ sDeployment opts) old'))"
      by blast
    from removeS3Files_events[OF this] obtain f where
      "f \<in> set old'"
      "k = (''deployments/'' @ sProduct opts @ ''/'' @ sDeployment opts) @ ''/'' @ f"
      by auto
    with sub lists show "\<exists>f \<in> set old.
        k = (''deployments/'' @ sProduct opts @ ''/'' @ sDeployment opts) @ ''/'' @ f"
      by blast
  qed
qed

theorem deletion_subset_of_candidates_witness:
  "maintainVersions demo_env demo_inventory demo_old 5 ''bucket'' demo_prefix = Inr []
   \<and> maintainVersions demo_env demo_inventory demo_old (- 1) ''bucket'' demo_prefix
       = Inr demo_old
   \<and> getS3Files demo_env (S3_BUCKET demo_env)
       (''deployments/'' @ sProduct demo_opts @ ''/'' @ sDeployment demo_opts)
       = Inr demo_inventory
   \<and> compareFiles demo_opts demo_env (getCwdFiles demo_env) demo_inventory =
       Inr ([''asset-manifest.json'', ''precache-manifest.3.js'', ''static/app.3.js'',
             ''index.html''], demo_old)
   \<and> syncToS3_lists demo_opts demo_env =
       Inr ([''asset-manifest.json'', ''precache-manifest.3.js'', ''static/app.3.js'',
             ''index.html''],
            [''precache-manifest.1.js'', ''static/app.1.js''])
   \<and> set [''precache-manifest.1.js'', ''static/app.1.js''] \<subseteq> set demo_old
   \<and> DeleteObject ''bucket'' ''deployments/app/live/static/app.1.js''
       \<in> set (fst (syncToS3 demo_opts demo_env))
   \<and> (\<exists>f \<in> set demo_old.
         ''deployments/app/live/static/app.1.js''
           = (''deployments/'' @ sProduct demo_opts @ ''/'' @ sDeployment demo_opts) @ ''/'' @ f)
   \<and> set [] \<subseteq> set demo_old \<and> set demo_old \<subseteq> set demo_old"
proof -
  have f: "\<not> bForceTransfer demo_opts" by (simp add: demo_opts_def)
  note c = demo_compareFiles_any[OF f]
  note t = deletion_subset_of_candidates
  from t[of demo_env demo_inventory demo_old 5 "''bucket''" demo_prefix "[]"]
    demo_maintainVersions_all
  have a: "set [] \<subseteq> set demo_old" by blast
  from t[of demo_env demo_inventory demo_old "- 1" "''bucket''" demo_prefix demo_old]
    demo_maintainVersions_negative
  have b: "set demo_old \<subseteq> set demo_old" by blast
  from t[where e = demo_env and opts = demo_opts and info = demo_inventory and old = demo_old]
    demo_getS3Files c
  have d: "(\<forall>new' old'. syncToS3_lists demo_opts demo_env = Inr (new', old')
              \<longrightarrow> set old' \<subseteq> set demo_old)
         \<and> (\<forall>b k. DeleteObject b k \<in> set (fst (syncToS3 demo_opts demo_env)) \<longrightarrow>
              (\<exists>f \<in> set demo_old.
                 k = (''deployments/'' @ sProduct demo_opts @ ''/'' @ sDeployment demo_opts)
                       @ ''/'' @ f))"
    by blast
  from d demo_syncToS3_lists demo_syncToS3_delete a b demo_maintainVersions_all
    demo_maintainVersions_negative demo_getS3Files c
  show ?thesis by blast
qed

end
